theory Spec2Isabelle
  imports Main "HOL-Library.Sublist"
begin

section \<open>Python values\<close>

text \<open>
  A Python \<open>str\<close> is a sequence of Unicode code points and is modelled as a list of
  natural numbers; a \<open>bytes\<close> object is a list of 8-bit characters. String literals of
  the source are written \<open>str ''...''\<close>.
\<close>

type_synonym pystr = "nat list"
type_synonym bytes = "char list"

abbreviation str :: "string \<Rightarrow> pystr" where
  "str s \<equiv> map of_char s"

text \<open>
  The exceptions that can travel through the request-handling code (\<open>socket.error\<close> is
  Python's \<open>OSError\<close>).
\<close>

datatype exception =
    FileNotFoundError
  | PermissionError
  | IsADirectoryError
  | NotADirectoryError
  | OSError
  | ValueError
  | UnicodeEncodeError

subsection \<open>String methods\<close>

text \<open>\<open>s.startswith(p)\<close> and \<open>s.endswith(p)\<close>.\<close>

definition startswith :: "'a list \<Rightarrow> 'a list \<Rightarrow> bool" where
  "startswith s p = prefix p s"

definition endswith :: "'a list \<Rightarrow> 'a list \<Rightarrow> bool" where
  "endswith s p = suffix p s"

text \<open>\<open>s.lstrip('/')\<close>: drop every leading occurrence of the one character.\<close>

definition lstrip :: "'a \<Rightarrow> 'a list \<Rightarrow> 'a list" where
  "lstrip c s = dropWhile (\<lambda>x. x = c) s"

text \<open>
  \<open>s.split(sep)\<close> for a separator \<open>sep\<close>: the text is scanned from the left and cut
  at every occurrence of the separator, occurrences not overlapping. The result is never
  empty. (Only the non-empty literal separators of the source are used; Python raises
  \<open>ValueError\<close> for an empty one, here nothing is ever cut.)
\<close>

function py_split :: "'a list \<Rightarrow> 'a list \<Rightarrow> 'a list list" where
  "py_split sep [] = [[]]"
| "py_split sep (x # xs) =
     (if sep \<noteq> [] \<and> prefix sep (x # xs)
      then [] # py_split sep (drop (length sep) (x # xs))
      else (case py_split sep xs of
              [] \<Rightarrow> [[x]]
            | h # t \<Rightarrow> (x # h) # t))"
  by pat_completeness auto
termination
  by (relation "measure (\<lambda>(sep, s). length s)") auto

declare py_split.simps(2) [simp del]

text \<open>\<open>sep.join(parts)\<close>.\<close>

fun py_join :: "'a list \<Rightarrow> 'a list list \<Rightarrow> 'a list" where
  "py_join sep [] = []"
| "py_join sep [p] = p"
| "py_join sep (p # q # ps) = p @ sep @ py_join sep (q # ps)"

text \<open>
  \<open>s.lower()\<close>, character by character. The table is Python's on the code points up to
  U+00FF and on the five code points above U+00FF whose lower-case form contains a code
  point up to U+00FF (U+0130, U+0178, U+1E9E, U+212A, U+212B). Every other code point
  above U+00FF is left unchanged here; Python maps it to code points above U+00FF.
\<close>

definition lower_cp :: "nat \<Rightarrow> nat list" where
  "lower_cp c =
     (if 65 \<le> c \<and> c \<le> 90 then [c + 32]
      else if 192 \<le> c \<and> c \<le> 222 \<and> c \<noteq> 215 then [c + 32]
      else if c = 304 then [105, 775]
      else if c = 376 then [255]
      else if c = 7838 then [223]
      else if c = 8490 then [107]
      else if c = 8491 then [229]
      else [c])"

definition lower :: "pystr \<Rightarrow> pystr" where
  "lower s = concat (map lower_cp s)"

section \<open>Configuration and MIME types\<close>

definition SERVER_NAME :: pystr where
  "SERVER_NAME = str ''BobsDiscountServer/2.1''"

definition DEFAULT_MIME_TYPE :: pystr where
  "DEFAULT_MIME_TYPE = str ''application/octet-stream''"

definition MIME_TYPES :: "(pystr \<times> pystr) list" where
  "MIME_TYPES =
     [(str ''html'', str ''text/html''),
      (str ''htm'', str ''text/html''),
      (str ''css'', str ''text/css''),
      (str ''js'', str ''application/javascript''),
      (str ''json'', str ''application/json''),
      (str ''png'', str ''image/png''),
      (str ''jpg'', str ''image/jpeg''),
      (str ''jpeg'', str ''image/jpeg''),
      (str ''gif'', str ''image/gif''),
      (str ''txt'', str ''text/plain'')]"

text \<open>\<open>d.get(k, default)\<close> on a dictionary given as its list of items.\<close>

definition dict_get :: "('k \<times> 'v) list \<Rightarrow> 'k \<Rightarrow> 'v \<Rightarrow> 'v" where
  "dict_get d k dflt = (case map_of d k of None \<Rightarrow> dflt | Some v \<Rightarrow> v)"

definition get_mime_type :: "pystr \<Rightarrow> pystr" where
  "get_mime_type file_path =
     (if 46 \<in> set file_path
      then (let ext = lower (last (py_split (str ''.'') file_path))
            in dict_get MIME_TYPES ext DEFAULT_MIME_TYPE)
      else DEFAULT_MIME_TYPE)"

subsection \<open>The MIME resolver as the specification words it\<close>

text \<open>
  The final segment of a path is what follows its last \<open>/\<close>, the extension is what
  follows the last \<open>.\<close> of that segment, and letters are compared without regard to
  case.
\<close>

definition after_last :: "'a \<Rightarrow> 'a list \<Rightarrow> 'a list" where
  "after_last c s = rev (takeWhile (\<lambda>x. x \<noteq> c) (rev s))"

definition final_segment :: "pystr \<Rightarrow> pystr" where
  "final_segment p = after_last 47 p"

definition fold_case :: "nat \<Rightarrow> nat" where
  "fold_case c = (if 65 \<le> c \<and> c \<le> 90 then c + 32 else c)"

definition spec_content_type :: "pystr \<Rightarrow> pystr" where
  "spec_content_type ext =
     (if ext = str ''html'' \<or> ext = str ''htm'' then str ''text/html''
      else if ext = str ''css'' then str ''text/css''
      else if ext = str ''js'' then str ''application/javascript''
      else if ext = str ''json'' then str ''application/json''
      else if ext = str ''png'' then str ''image/png''
      else if ext = str ''jpg'' \<or> ext = str ''jpeg'' then str ''image/jpeg''
      else if ext = str ''gif'' then str ''image/gif''
      else if ext = str ''txt'' then str ''text/plain''
      else str ''application/octet-stream'')"

definition spec_mime_resolver :: "pystr \<Rightarrow> pystr" where
  "spec_mime_resolver p =
     (let seg = final_segment p
      in if 46 \<in> set seg
         then spec_content_type (map fold_case (after_last 46 seg))
         else str ''application/octet-stream'')"

section \<open>Response framing\<close>

text \<open>
  The decimal text of a natural number and of an integer, and the conversion an
  f-string makes of an integer: CPython converts an integer of at most 4300 decimal
  digits (the default of \<open>sys.int_info.default_max_str_digits\<close>, which the source
  leaves as it is; the sign is not counted) and raises \<open>ValueError\<close> on a longer one.
  The length of a \<open>bytes\<close> object is at most \<open>sys.maxsize\<close>, a number of 19
  digits, so the conversion of \<open>content_length\<close> is never refused and is
  \<open>str_of_nat\<close>.
\<close>

fun str_of_nat :: "nat \<Rightarrow> pystr" where
  "str_of_nat n = (if n < 10 then [48 + n] else str_of_nat (n div 10) @ [48 + n mod 10])"

declare str_of_nat.simps [simp del]

definition decimal_of_int :: "int \<Rightarrow> pystr" where
  "decimal_of_int i = (if i < 0 then 45 # str_of_nat (nat (- i)) else str_of_nat (nat i))"

definition digits_of_int :: "int \<Rightarrow> nat" where
  "digits_of_int i = length (str_of_nat (nat \<bar>i\<bar>))"

definition str_of_int :: "int \<Rightarrow> exception + pystr" where
  "str_of_int i = (if 4300 < digits_of_int i then Inl ValueError else Inr (decimal_of_int i))"

text \<open>
  The \<open>latin-1\<close> codec: decoding maps each byte to the code point of the same
  number; encoding is defined on code points below 256 and raises
  \<open>UnicodeEncodeError\<close> on any other.
\<close>

definition decode_latin1 :: "bytes \<Rightarrow> pystr" where
  "decode_latin1 b = map of_char b"

definition encode_latin1 :: "pystr \<Rightarrow> exception + bytes" where
  "encode_latin1 s =
     (if list_all (\<lambda>c. c < 256) s then Inr (map char_of s) else Inl UnicodeEncodeError)"

text \<open>
  \<open>format_http_response\<close>. The value of \<open>formatdate(...)\<close>, which reads the clock, is
  the parameter \<open>date\<close>; the library returns ASCII text, so it is given as a \<open>string\<close>.
\<close>

definition format_http_response ::
  "string \<Rightarrow> int \<Rightarrow> pystr \<Rightarrow> pystr \<Rightarrow> bytes \<Rightarrow> exception + bytes" where
  "format_http_response date status_code status_text content_type content_body =
     (let content_length = length content_body;
          date_header = str date
      in case str_of_int status_code of
           Inl e \<Rightarrow> Inl e
         | Inr code \<Rightarrow>
             (let response_line =
                    str ''HTTP/1.1 '' @ code @ str '' '' @ status_text @ [13, 10];
                  headers =
                    [str ''Date: '' @ date_header,
                     str ''Server: '' @ SERVER_NAME,
                     str ''Content-Type: '' @ content_type,
                     str ''Content-Length: '' @ str_of_nat content_length,
                     str ''Connection: close''];
                  header_string =
                    response_line @ py_join [13, 10] headers @ [13, 10, 13, 10]
              in case encode_latin1 header_string of
                   Inl e \<Rightarrow> Inl e
                 | Inr header_bytes \<Rightarrow> Inr (header_bytes @ content_body)))"

section \<open>Library functions used by the path resolution\<close>

subsection \<open>\<open>os.path\<close> on a POSIX system\<close>

definition isabs :: "pystr \<Rightarrow> bool" where
  "isabs p = startswith p (str ''/'')"

text \<open>\<open>os.path.join(a, b)\<close> with one further component.\<close>

definition join :: "pystr \<Rightarrow> pystr \<Rightarrow> pystr" where
  "join a b =
     (if startswith b (str ''/'') then b
      else if a = [] \<or> endswith a (str ''/'') then a @ b
      else a @ str ''/'' @ b)"

text \<open>
  The loop of \<open>os.path.normpath\<close> over the components of the path: \<open>new_comps\<close> is
  the stack built so far, \<open>initial_slashes\<close> the number of leading slashes kept.
\<close>

fun normpath_loop :: "nat \<Rightarrow> pystr list \<Rightarrow> pystr list \<Rightarrow> pystr list" where
  "normpath_loop initial_slashes new_comps [] = new_comps"
| "normpath_loop initial_slashes new_comps (part # comps) =
     (if part = [] \<or> part = str ''.''
      then normpath_loop initial_slashes new_comps comps
      else if part \<noteq> str ''..'' \<or> (initial_slashes = 0 \<and> new_comps = [])
                \<or> (new_comps \<noteq> [] \<and> last new_comps = str ''..'')
      then normpath_loop initial_slashes (new_comps @ [part]) comps
      else if new_comps \<noteq> []
      then normpath_loop initial_slashes (butlast new_comps) comps
      else normpath_loop initial_slashes new_comps comps)"

definition normpath :: "pystr \<Rightarrow> pystr" where
  "normpath path =
     (if path = [] then str ''.''
      else
        let initial_slashes =
              (if startswith path (str ''/'')
               then (if startswith path (str ''//'') \<and> \<not> startswith path (str ''///'')
                     then 2 else 1)
               else 0);
            comps = normpath_loop initial_slashes [] (py_split (str ''/'') path);
            joined = py_join (str ''/'') comps;
            path' = (if initial_slashes \<noteq> 0
                     then replicate initial_slashes 47 @ joined else joined)
        in if path' = [] then str ''.'' else path')"

text \<open>\<open>os.path.abspath\<close>; \<open>cwd\<close> is the value of \<open>os.getcwd()\<close>.\<close>

definition abspath :: "pystr \<Rightarrow> pystr \<Rightarrow> pystr" where
  "abspath cwd path = normpath (if \<not> isabs path then join cwd path else path)"

subsection \<open>\<open>urllib.parse.unquote\<close>\<close>

definition is_hexdig :: "nat \<Rightarrow> bool" where
  "is_hexdig c = ((48 \<le> c \<and> c \<le> 57) \<or> (65 \<le> c \<and> c \<le> 70) \<or> (97 \<le> c \<and> c \<le> 102))"

definition hexval :: "nat \<Rightarrow> nat" where
  "hexval c = (if c \<le> 57 then c - 48 else if c \<le> 70 then c - 55 else c - 87)"

text \<open>
  \<open>unquote_to_bytes\<close> on a run of ASCII characters: every \<open>%\<close> followed by two
  hexadecimal digits becomes the byte they denote, everything else is kept.
\<close>

fun unquote_to_bytes :: "pystr \<Rightarrow> nat list" where
  "unquote_to_bytes (c # h # l # r) =
     (if c = 37 \<and> is_hexdig h \<and> is_hexdig l
      then (16 * hexval h + hexval l) # unquote_to_bytes r
      else c # unquote_to_bytes (h # l # r))"
| "unquote_to_bytes s = s"

text \<open>
  \<open>bytes.decode('utf-8', 'replace')\<close>: a well-formed sequence gives its code point; an
  invalid start byte, or the longest well-formed beginning of a sequence that is then
  broken or cut off by the end of the input, gives U+FFFD. Bytes are numbers below 256.
\<close>

definition is_cont :: "nat \<Rightarrow> bool" where
  "is_cont b = (128 \<le> b \<and> b < 192)"

text \<open>
  One step of the decoder at the byte \<open>b\<close> followed by \<open>bs\<close>: the code point
  produced and the number of bytes of \<open>bs\<close> consumed with \<open>b\<close>.
\<close>

definition utf8_step :: "nat \<Rightarrow> nat list \<Rightarrow> nat \<times> nat" where
  "utf8_step b bs =
     (if b < 128 then (b, 0)
      else if b < 194 then (65533, 0)
      else if b < 224 then
        (case bs of
           [] \<Rightarrow> (65533, 0)
         | b2 # r2 \<Rightarrow>
             if is_cont b2 then ((b - 192) * 64 + (b2 - 128), 1) else (65533, 0))
      else if b < 240 then
        (case bs of
           [] \<Rightarrow> (65533, 0)
         | b2 # r2 \<Rightarrow>
             if \<not> is_cont b2 \<or> (b = 224 \<and> b2 < 160) \<or> (b = 237 \<and> 160 \<le> b2)
             then (65533, 0)
             else
               (case r2 of
                  [] \<Rightarrow> (65533, 1)
                | b3 # r3 \<Rightarrow>
                    if is_cont b3
                    then ((b - 224) * 4096 + (b2 - 128) * 64 + (b3 - 128), 2)
                    else (65533, 1)))
      else if b < 245 then
        (case bs of
           [] \<Rightarrow> (65533, 0)
         | b2 # r2 \<Rightarrow>
             if \<not> is_cont b2 \<or> (b = 240 \<and> b2 < 144) \<or> (b = 244 \<and> 144 \<le> b2)
             then (65533, 0)
             else
               (case r2 of
                  [] \<Rightarrow> (65533, 1)
                | b3 # r3 \<Rightarrow>
                    if \<not> is_cont b3 then (65533, 1)
                    else
                      (case r3 of
                         [] \<Rightarrow> (65533, 2)
                       | b4 # r4 \<Rightarrow>
                           if is_cont b4
                           then ((b - 240) * 262144 + (b2 - 128) * 4096
                                   + (b3 - 128) * 64 + (b4 - 128), 3)
                           else (65533, 2))))
      else (65533, 0))"

fun utf8_decode_replace :: "nat list \<Rightarrow> pystr" where
  "utf8_decode_replace [] = []"
| "utf8_decode_replace (b # bs) =
     (case utf8_step b bs of (cp, k) \<Rightarrow> cp # utf8_decode_replace (drop k bs))"

text \<open>
  \<open>unquote\<close>: a string without \<open>%\<close> is returned as it is; otherwise each maximal run
  of ASCII characters is unquoted to bytes and decoded, and the characters between the
  runs are kept. \<open>run\<close> is the ASCII run being collected.
\<close>

fun unquote_runs :: "pystr \<Rightarrow> pystr \<Rightarrow> pystr" where
  "unquote_runs run [] = utf8_decode_replace (unquote_to_bytes run)"
| "unquote_runs run (c # cs) =
     (if c < 128 then unquote_runs (run @ [c]) cs
      else utf8_decode_replace (unquote_to_bytes run) @ c # unquote_runs [] cs)"

definition unquote :: "pystr \<Rightarrow> pystr" where
  "unquote string = (if 37 \<notin> set string then string else unquote_runs [] string)"

section \<open>Path resolution and file serving\<close>

text \<open>
  What \<open>build_response\<close> reads from outside: the working directory, the file system
  (\<open>open_rb path\<close> is the outcome of opening \<open>path\<close> in binary mode and reading it
  whole) and the clock, through \<open>formatdate\<close>.
\<close>

record world =
  getcwd :: pystr
  open_rb :: "pystr \<Rightarrow> exception + bytes"
  formatdate :: string

text \<open>
  Lines 76 to 82 of the source: the index handling and the value of \<open>full_path\<close>, for
  a decoded \<open>uri_path\<close>.
\<close>

definition full_path_of :: "pystr \<Rightarrow> pystr \<Rightarrow> pystr" where
  "full_path_of uri_path doc_root =
     (let uri_path' = (if endswith uri_path (str ''/'')
                       then uri_path @ str ''index.html'' else uri_path);
          relative_path = lstrip 47 uri_path'
      in join doc_root relative_path)"

text \<open>
  Lines 84 to 107: the traversal check on the absolute paths and the attempt to read
  the file. Only \<open>FileNotFoundError\<close> is caught; any other exception leaves the function.
\<close>

definition serve_path :: "world \<Rightarrow> pystr \<Rightarrow> pystr \<Rightarrow> exception + bytes" where
  "serve_path w doc_root full_path =
     (let abs_doc_root = abspath (getcwd w) doc_root;
          abs_full_path = abspath (getcwd w) full_path
      in if \<not> startswith abs_full_path abs_doc_root
         then format_http_response (formatdate w) 404 (str ''Not Found'') (str ''text/html'')
                ''<h1>404 Not Found (Security Violation)</h1>''
         else
           (case open_rb w full_path of
              Inr content_body \<Rightarrow>
                format_http_response (formatdate w) 200 (str ''OK'')
                  (get_mime_type full_path) content_body
            | Inl e \<Rightarrow>
                if e = FileNotFoundError
                then format_http_response (formatdate w) 404 (str ''Not Found'')
                       (str ''text/html'') ''<h1>404 Not Found</h1>''
                else Inl e))"

text \<open>
  \<open>build_response\<close>. The decoder is the parameter \<open>unq\<close>, with \<open>Inl\<close> for a call
  that raises, so that the \<open>except\<close> branch of the source is a branch here; the
  library's decoder is \<open>urllib_unquote\<close>, which never raises.
\<close>

definition build_response ::
  "(pystr \<Rightarrow> exception + pystr) \<Rightarrow> world \<Rightarrow> pystr \<Rightarrow> pystr \<Rightarrow> exception + bytes" where
  "build_response unq w uri_path doc_root =
     (case unq uri_path of
        Inl e \<Rightarrow>
          format_http_response (formatdate w) 400 (str ''Bad Request'') (str ''text/html'')
            ''<h1>400 Bad Request</h1>''
      | Inr decoded \<Rightarrow> serve_path w doc_root (full_path_of decoded doc_root))"

definition urllib_unquote :: "pystr \<Rightarrow> exception + pystr" where
  "urllib_unquote s = Inr (unquote s)"

section \<open>The connection handler\<close>

text \<open>
  Each connection is handled by a thread of its own that shares nothing mutable with
  the others, so \<open>handle_request\<close> is a function of its connection and of the world.
  A connection is the list of what the successive calls of \<open>recv(1024)\<close> return, data
  or a socket error; an empty chunk, or the end of the list, is the peer closing its
  side. \<open>send_error\<close> is \<open>Some k\<close> when \<open>sendall\<close> raises after writing \<open>k\<close> bytes.
  The messages printed on the console are left out.
\<close>

datatype recv_result = Data bytes | RecvError

record connection =
  incoming :: "recv_result list"
  send_error :: "nat option"

text \<open>What the handler leaves behind: the bytes written, whether the socket was closed,
  and the exception that left the handler, if one did.\<close>

record outcome =
  sent :: bytes
  closed :: bool
  raised :: "exception option"

text \<open>\<open>sub in s\<close>.\<close>

fun contains :: "'a list \<Rightarrow> 'a list \<Rightarrow> bool" where
  "contains sub [] = (sub = [])"
| "contains sub (x # xs) = (prefix sub (x # xs) \<or> contains sub xs)"

text \<open>The read loop of lines 116 to 122; \<open>Inl\<close> is the socket error of line 124.\<close>

fun recv_loop :: "recv_result list \<Rightarrow> bytes \<Rightarrow> exception + bytes" where
  "recv_loop [] request_data = Inr request_data"
| "recv_loop (RecvError # rest) request_data = Inl OSError"
| "recv_loop (Data chunk # rest) request_data =
     (if chunk = [] then Inr request_data
      else if contains [CHR 0x0D, CHR 0x0A, CHR 0x0D, CHR 0x0A] (request_data @ chunk)
      then Inr (request_data @ chunk)
      else recv_loop rest (request_data @ chunk))"

text \<open>\<open>c.isspace()\<close> and \<open>s.split()\<close>: the maximal runs of characters that are not
  white space; \<open>tok\<close> is the token being collected.\<close>

definition isspace :: "nat \<Rightarrow> bool" where
  "isspace c = (c \<in> {9, 10, 11, 12, 13, 28, 29, 30, 31, 32, 133, 160, 5760, 8192, 8193,
      8194, 8195, 8196, 8197, 8198, 8199, 8200, 8201, 8202, 8232, 8233, 8239, 8287, 12288})"

fun split_ws_from :: "pystr \<Rightarrow> pystr \<Rightarrow> pystr list" where
  "split_ws_from tok [] = (if tok = [] then [] else [tok])"
| "split_ws_from tok (c # cs) =
     (if isspace c
      then (if tok = [] then split_ws_from [] cs else tok # split_ws_from [] cs)
      else split_ws_from (tok @ [c]) cs)"

definition split_ws :: "pystr \<Rightarrow> pystr list" where
  "split_ws s = split_ws_from [] s"

definition closed_silently :: outcome where
  "closed_silently = \<lparr>sent = [], closed = True, raised = None\<rparr>"

definition handle_request ::
  "(pystr \<Rightarrow> exception + pystr) \<Rightarrow> world \<Rightarrow> connection \<Rightarrow> pystr \<Rightarrow> outcome" where
  "handle_request unq w client_socket doc_root =
     (case recv_loop (incoming client_socket) [] of
        Inl e \<Rightarrow> closed_silently
      | Inr request_data \<Rightarrow>
          if request_data = [] then closed_silently
          else
            (case py_split [13, 10] (decode_latin1 request_data) of
               [] \<Rightarrow> closed_silently
             | request_line # _ \<Rightarrow>
                 (case split_ws request_line of
                    [method, uri_path, http_version] \<Rightarrow>
                      if method \<noteq> str ''GET'' then closed_silently
                      else
                        (case build_response unq w uri_path doc_root of
                           Inl e \<Rightarrow> \<lparr>sent = [], closed = False, raised = Some e\<rparr>
                         | Inr response_bytes \<Rightarrow>
                             (case send_error client_socket of
                                None \<Rightarrow>
                                  \<lparr>sent = response_bytes, closed = True, raised = None\<rparr>
                              | Some k \<Rightarrow>
                                  \<lparr>sent = take k response_bytes, closed = True,
                                   raised = None\<rparr>))
                  | _ \<Rightarrow> closed_silently)))"

section \<open>Notions the claims are stated with\<close>

text \<open>
  The header block as the specification lists it: the status line, then \<open>Date\<close>,
  \<open>Server\<close>, \<open>Content-Type\<close>, \<open>Content-Length\<close> and \<open>Connection: close\<close>, each
  line closed by CR LF, and one empty line. \<open>n\<close> is the value of \<open>Content-Length\<close>.
\<close>

definition header_text :: "string \<Rightarrow> int \<Rightarrow> pystr \<Rightarrow> pystr \<Rightarrow> nat \<Rightarrow> pystr" where
  "header_text date status_code status_text content_type n =
     concat (map (\<lambda>line. line @ [13, 10])
       [str ''HTTP/1.1 '' @ decimal_of_int status_code @ str '' '' @ status_text,
        str ''Date: '' @ str date,
        str ''Server: BobsDiscountServer/2.1'',
        str ''Content-Type: '' @ content_type,
        str ''Content-Length: '' @ str_of_nat n,
        str ''Connection: close'',
        []])"

text \<open>The number a decimal text denotes, as a client reads \<open>Content-Length\<close>.\<close>

definition decimal_value :: "pystr \<Rightarrow> nat" where
  "decimal_value s = foldl (\<lambda>a c. 10 * a + (c - 48)) 0 s"

text \<open>The status line of a response: its text up to the first CR.\<close>

definition status_line :: "bytes \<Rightarrow> pystr" where
  "status_line response = takeWhile (\<lambda>c. c \<noteq> 13) (decode_latin1 response)"

text \<open>The request line of a received buffer: its text up to the first CR LF.\<close>

definition request_line_of :: "bytes \<Rightarrow> pystr" where
  "request_line_of request_data =
     (case py_split [13, 10] (decode_latin1 request_data) of
        [] \<Rightarrow> []
      | request_line # _ \<Rightarrow> request_line)"

text \<open>
  Containment as the specification words it: the path is the document root itself or
  has the document root as an ancestor directory, a whole path segment matching.
\<close>

definition in_subtree :: "pystr \<Rightarrow> pystr \<Rightarrow> bool" where
  "in_subtree root path =
     (path = root \<or>
      startswith path (if endswith root (str ''/'') then root else root @ str ''/''))"

text \<open>
  A small world for the concrete cases: a document root \<open>/srv/www\<close> holding
  \<open>index.html\<close> and an unreadable \<open>private\<close>, beside a directory
  \<open>/srv/www-secret\<close> holding \<open>key\<close>. The operating system follows \<open>..\<close>
  when it opens a file, so \<open>/srv/www/../www-secret/key\<close> opens that file.
\<close>

definition example_fs :: "pystr \<Rightarrow> exception + bytes" where
  "example_fs path =
     (if path = str ''/srv/www/index.html'' then Inr ''<p>hello</p>''
      else if path = str ''/srv/www/../www-secret/key'' then Inr ''secret''
      else if path = str ''/srv/www/private'' then Inl PermissionError
      else Inl FileNotFoundError)"

definition example_world :: world where
  "example_world =
     \<lparr>getcwd = str ''/home/bob'', open_rb = example_fs,
      formatdate = ''Wed, 04 Nov 2026 07:24:00 GMT''\<rparr>"

text \<open>
  The same world at a later time, and two connections carrying the request line
  \<open>GET / HTTP/1.1\<close>: one with a further header in one chunk, one cut in two chunks.
\<close>

definition example_world_later :: world where
  "example_world_later = example_world\<lparr>formatdate := ''Thu, 05 Nov 2026 08:00:00 GMT''\<rparr>"

definition example_connection1 :: connection where
  "example_connection1 =
     \<lparr>incoming = [Data (''GET / HTTP/1.1'' @ [CHR 0x0D, CHR 0x0A] @ ''Host: a''
                        @ [CHR 0x0D, CHR 0x0A, CHR 0x0D, CHR 0x0A])],
      send_error = None\<rparr>"

definition example_connection2 :: connection where
  "example_connection2 =
     \<lparr>incoming = [Data ''GET / HTT'',
                  Data (''P/1.1'' @ [CHR 0x0D, CHR 0x0A, CHR 0x0D, CHR 0x0A])],
      send_error = None\<rparr>"

section \<open>Facts about the string methods\<close>

lemma py_split_nonempty: "py_split sep s \<noteq> []"
  by (induction sep s rule: py_split.induct) (auto simp: py_split.simps(2) split: list.splits)

lemma py_split_char_Cons:
  "py_split [c] (x # xs) =
     (if x = c then [] # py_split [c] xs
      else (case py_split [c] xs of [] \<Rightarrow> [[x]] | h # t \<Rightarrow> (x # h) # t))"
  by (simp add: py_split.simps(2))

lemma py_split_char_absent: "c \<notin> set s \<Longrightarrow> py_split [c] s = [s]"
  by (induction s) (auto simp: py_split_char_Cons)

lemma py_split_char_length:
  "length (py_split [c] s) = Suc (length (filter (\<lambda>x. x = c) s))"
proof (induction s)
  case Nil
  show ?case by simp
next
  case (Cons x xs)
  show ?case
  proof (cases "x = c")
    case True
    with Cons show ?thesis
      by (simp add: py_split_char_Cons)
  next
    case False
    obtain h t where ht: "py_split [c] xs = h # t"
      using py_split_nonempty [of "[c]" xs] by (cases "py_split [c] xs") auto
    with Cons False show ?thesis
      by (simp add: py_split_char_Cons)
  qed
qed

lemma py_split_char_last_Cons:
  assumes "c \<in> set s"
  shows "last (py_split [c] (x # s)) = last (py_split [c] s)"
proof (cases "x = c")
  case True
  then show ?thesis
    by (simp add: py_split_char_Cons py_split_nonempty)
next
  case False
  obtain h t where ht: "py_split [c] s = h # t"
    using py_split_nonempty [of "[c]" s] by (cases "py_split [c] s") auto
  have "filter (\<lambda>x. x = c) s \<noteq> []"
    using assms by (simp add: filter_empty_conv)
  then have "2 \<le> length (py_split [c] s)"
    by (cases "filter (\<lambda>x. x = c) s") (simp_all add: py_split_char_length)
  with ht have "t \<noteq> []" by auto
  with ht False show ?thesis
    by (simp add: py_split_char_Cons)
qed

lemma after_last_Cons:
  "after_last c (x # xs) = (if c \<in> set xs then after_last c xs else if x = c then xs else x # xs)"
proof -
  have "c \<notin> set xs \<Longrightarrow> takeWhile (\<lambda>y. y \<noteq> c) (rev xs) = rev xs"
    by auto
  then show ?thesis
    by (auto simp: after_last_def takeWhile_append)
qed

lemma last_py_split_char: "last (py_split [c] s) = after_last c s"
proof (induction s)
  case Nil
  show ?case by (simp add: after_last_def)
next
  case (Cons x xs)
  show ?case
  proof (cases "c \<in> set xs")
    case True
    then have "last (py_split [c] (x # xs)) = last (py_split [c] xs)"
      by (rule py_split_char_last_Cons)
    with True Cons show ?thesis
      by (simp only: after_last_Cons if_True)
  next
    case False
    then have "py_split [c] xs = [xs]" by (rule py_split_char_absent)
    then have "last (py_split [c] (x # xs)) = (if x = c then xs else x # xs)"
      by (simp only: py_split_char_Cons) simp
    with False show ?thesis
      by (simp only: after_last_Cons if_False)
  qed
qed

lemma after_last_absent: "c \<notin> set s \<Longrightarrow> after_last c s = s"
proof -
  assume "c \<notin> set s"
  then have "takeWhile (\<lambda>x. x \<noteq> c) (rev s) = rev s" by auto
  then show ?thesis by (simp only: after_last_def rev_rev_ident)
qed

lemma set_after_last: "set (after_last c s) \<subseteq> set s"
proof
  fix x assume "x \<in> set (after_last c s)"
  then have "x \<in> set (takeWhile (\<lambda>x. x \<noteq> c) (rev s))" by (simp add: after_last_def)
  then have "x \<in> set (rev s)" by (rule set_takeWhileD [THEN conjunct1])
  then show "x \<in> set s" by simp
qed

lemma after_last_append_present:
  "c \<in> set t \<Longrightarrow> after_last c (s @ t) = after_last c t"
  by (auto simp: after_last_def takeWhile_append)

lemma after_last_append_absent:
  "c \<notin> set t \<Longrightarrow> after_last c (s @ t) = after_last c s @ t"
  by (auto simp: after_last_def takeWhile_append)

lemma after_last_decompose:
  "c \<in> set s \<Longrightarrow> \<exists>a. s = a @ c # after_last c s"
proof (induction s rule: rev_induct)
  case Nil
  then show ?case by simp
next
  case (snoc x xs)
  show ?case
  proof (cases "x = c")
    case True
    then show ?thesis by (auto simp: after_last_def)
  next
    case False
    with snoc.prems have "c \<in> set xs" by simp
    with snoc.IH obtain a where a: "xs = a @ c # after_last c xs" by blast
    have e: "after_last c (xs @ [x]) = after_last c xs @ [x]"
      using False by (simp add: after_last_append_absent)
    from a have "xs @ [x] = a @ c # (after_last c xs @ [x])" by simp
    also have "\<dots> = a @ c # after_last c (xs @ [x])" by (simp only: e)
    finally show ?thesis by (rule exI)
  qed
qed

lemma after_last_free: "c \<notin> set (after_last c s)"
proof
  assume "c \<in> set (after_last c s)"
  then have "c \<in> set (takeWhile (\<lambda>x. x \<noteq> c) (rev s))" by (simp add: after_last_def)
  then have "c \<noteq> c" by (rule set_takeWhileD [THEN conjunct2])
  then show False by simp
qed

section \<open>Facts about the MIME table\<close>

lemma mime_key_letters:
  "map_of MIME_TYPES k = Some v \<Longrightarrow> \<forall>c\<in>set k. 97 \<le> c \<and> c \<le> 122 \<and> c \<noteq> 107"
  by (auto simp: MIME_TYPES_def split: if_splits)

lemma dict_get_mime_spec: "dict_get MIME_TYPES k DEFAULT_MIME_TYPE = spec_content_type k"
  by (simp add: dict_get_def MIME_TYPES_def DEFAULT_MIME_TYPE_def spec_content_type_def)

lemma lower_cp_fold1:
  "\<forall>c\<in>set (lower_cp x). 97 \<le> c \<and> c \<le> 122 \<and> c \<noteq> 107 \<Longrightarrow> lower_cp x = [fold_case x]"
  by (auto simp: lower_cp_def fold_case_def split: if_splits)

lemma lower_cp_fold2:
  "97 \<le> fold_case x \<and> fold_case x \<le> 122 \<Longrightarrow> lower_cp x = [fold_case x]"
  by (auto simp: lower_cp_def fold_case_def split: if_splits)

lemma lower_Cons: "lower (x # xs) = lower_cp x @ lower xs"
  by (simp add: lower_def)

lemma lower_eq_fold1:
  "\<forall>c\<in>set (lower s). 97 \<le> c \<and> c \<le> 122 \<and> c \<noteq> 107 \<Longrightarrow> lower s = map fold_case s"
proof (induction s)
  case Nil
  show ?case by (simp add: lower_def)
next
  case (Cons x xs)
  from Cons.prems have 1: "\<forall>c\<in>set (lower_cp x). 97 \<le> c \<and> c \<le> 122 \<and> c \<noteq> 107"
    and 2: "\<forall>c\<in>set (lower xs). 97 \<le> c \<and> c \<le> 122 \<and> c \<noteq> 107"
    by (simp_all add: lower_Cons)
  from 1 have "lower_cp x = [fold_case x]" by (rule lower_cp_fold1)
  moreover from 2 have "lower xs = map fold_case xs" by (rule Cons.IH)
  ultimately show ?case by (simp add: lower_Cons)
qed

lemma lower_eq_fold2:
  "\<forall>c\<in>set (map fold_case s). 97 \<le> c \<and> c \<le> 122 \<Longrightarrow> lower s = map fold_case s"
proof (induction s)
  case Nil
  show ?case by (simp add: lower_def)
next
  case (Cons x xs)
  from Cons.prems have "97 \<le> fold_case x \<and> fold_case x \<le> 122" by simp
  then have "lower_cp x = [fold_case x]" by (rule lower_cp_fold2)
  moreover from Cons.prems have "lower xs = map fold_case xs" by (intro Cons.IH) simp
  ultimately show ?case by (simp add: lower_Cons)
qed

lemma mime_lookup_lower:
  "dict_get MIME_TYPES (lower e) DEFAULT_MIME_TYPE = spec_content_type (map fold_case e)"
proof (cases "map_of MIME_TYPES (lower e)")
  case (Some v)
  then have "lower e = map fold_case e"
    by (intro lower_eq_fold1 mime_key_letters)
  then show ?thesis by (simp add: dict_get_mime_spec)
next
  case None
  have "map_of MIME_TYPES (map fold_case e) = None"
  proof (rule ccontr)
    assume "map_of MIME_TYPES (map fold_case e) \<noteq> None"
    then obtain v where v: "map_of MIME_TYPES (map fold_case e) = Some v" by blast
    then have "\<forall>c\<in>set (map fold_case e). 97 \<le> c \<and> c \<le> 122 \<and> c \<noteq> 107"
      by (rule mime_key_letters)
    then have "\<forall>c\<in>set (map fold_case e). 97 \<le> c \<and> c \<le> 122" by blast
    then have "lower e = map fold_case e" by (rule lower_eq_fold2)
    with v None show False by simp
  qed
  then have "dict_get MIME_TYPES (map fold_case e) DEFAULT_MIME_TYPE = DEFAULT_MIME_TYPE"
    by (simp add: dict_get_def)
  moreover from None have "dict_get MIME_TYPES (lower e) DEFAULT_MIME_TYPE = DEFAULT_MIME_TYPE"
    by (simp add: dict_get_def)
  ultimately show ?thesis by (simp add: dict_get_mime_spec)
qed

lemma lower_keeps_slash: "47 \<in> set e \<Longrightarrow> 47 \<in> set (lower e)"
  by (induction e) (auto simp: lower_Cons lower_cp_def)

lemma mime_lookup_slash:
  assumes "47 \<in> set e"
  shows "dict_get MIME_TYPES (lower e) DEFAULT_MIME_TYPE = DEFAULT_MIME_TYPE"
proof (cases "map_of MIME_TYPES (lower e)")
  case None
  then show ?thesis by (simp add: dict_get_def)
next
  case (Some v)
  then have "\<forall>c\<in>set (lower e). 97 \<le> c \<and> c \<le> 122 \<and> c \<noteq> 107" by (rule mime_key_letters)
  moreover from assms have "47 \<in> set (lower e)" by (rule lower_keeps_slash)
  ultimately have "97 \<le> (47::nat)" by blast
  then show ?thesis by simp
qed

lemma after_last_suffix: "\<exists>a. p = a @ after_last c p"
proof -
  have "rev (dropWhile (\<lambda>x. x \<noteq> c) (rev p)) @ after_last c p =
        rev (takeWhile (\<lambda>x. x \<noteq> c) (rev p) @ dropWhile (\<lambda>x. x \<noteq> c) (rev p))"
    by (simp only: after_last_def rev_append)
  also have "\<dots> = p" by simp
  finally have "p = rev (dropWhile (\<lambda>x. x \<noteq> c) (rev p)) @ after_last c p" by (rule sym)
  then show ?thesis by (rule exI)
qed

lemma ext_in_segment:
  "46 \<in> set seg \<Longrightarrow> p = a @ seg \<Longrightarrow> after_last 46 p = after_last 46 seg"
  by (simp add: after_last_append_present)

lemma ext_has_slash:
  assumes "(46::nat) \<notin> set seg" and "p = a @ 47 # seg"
  shows "47 \<in> set (after_last 46 p)"
proof -
  have "after_last 46 ((a @ [47]) @ seg) = after_last 46 (a @ [47]) @ seg"
    using assms(1) by (rule after_last_append_absent)
  moreover have "after_last 46 (a @ [47::nat]) = after_last 46 a @ [47]"
    by (rule after_last_append_absent) simp
  ultimately show ?thesis using assms(2) by simp
qed

section \<open>Facts about the response framing\<close>

lemma of_char_latin1: "(of_char c :: nat) < 256"
proof -
  have "(of_char c :: nat) mod 256 = of_char c" by (rule of_char_mod_256)
  moreover have "(of_char c :: nat) mod 256 < 256" by simp
  ultimately show ?thesis by simp
qed

lemma str_latin1: "list_all (\<lambda>c. c < 256) (str s)"
  by (simp add: list_all_iff)

lemma str_of_nat_digits: "list_all (\<lambda>c. 48 \<le> c \<and> c \<le> 57) (str_of_nat n)"
proof (induction n rule: str_of_nat.induct)
  case (1 n)
  show ?case
  proof (cases "n < 10")
    case True
    then show ?thesis by (subst str_of_nat.simps) simp
  next
    case False
    with 1 have "list_all (\<lambda>c. 48 \<le> c \<and> c \<le> 57) (str_of_nat (n div 10))" by simp
    moreover have "n mod 10 < 10" by simp
    ultimately show ?thesis using False by (subst str_of_nat.simps) simp
  qed
qed

lemma str_of_nat_latin1: "list_all (\<lambda>c. c < 256) (str_of_nat n)"
  using str_of_nat_digits [of n] by (auto simp: list_all_iff)

lemma decimal_of_int_latin1: "list_all (\<lambda>c. c < 256) (decimal_of_int i)"
  by (simp add: decimal_of_int_def str_of_nat_latin1)

lemma decimal_value_append:
  "decimal_value (s @ [c]) = 10 * decimal_value s + (c - 48)"
  by (simp add: decimal_value_def)

lemma decimal_value_str_of_nat: "decimal_value (str_of_nat n) = n"
proof (induction n rule: str_of_nat.induct)
  case (1 n)
  show ?case
  proof (cases "n < 10")
    case True
    then show ?thesis by (subst str_of_nat.simps) (simp add: decimal_value_def)
  next
    case False
    with 1 have "decimal_value (str_of_nat (n div 10)) = n div 10" by simp
    then show ?thesis using False
      by (subst str_of_nat.simps) (simp add: decimal_value_append)
  qed
qed

lemma decode_encode_latin1:
  "list_all (\<lambda>c. c < 256) s \<Longrightarrow> decode_latin1 (map char_of s) = s"
  by (induction s) (simp_all add: decode_latin1_def)

lemma encode_latin1_ok:
  "list_all (\<lambda>c. c < 256) s \<Longrightarrow> encode_latin1 s = Inr (map char_of s)"
  by (simp add: encode_latin1_def)

lemma header_text_latin1:
  "list_all (\<lambda>c. c < 256) status_text \<Longrightarrow> list_all (\<lambda>c. c < 256) content_type \<Longrightarrow>
   list_all (\<lambda>c. c < 256) (header_text date status_code status_text content_type n)"
  using str_latin1 [of date] by (simp add: header_text_def decimal_of_int_latin1 str_of_nat_latin1)

lemma header_text_latin1_iff:
  "list_all (\<lambda>c. c < 256) (header_text date status_code status_text content_type n) =
     (list_all (\<lambda>c. c < 256) status_text \<and> list_all (\<lambda>c. c < 256) content_type)"
  using str_latin1 [of date]
  by (simp add: header_text_def decimal_of_int_latin1 str_of_nat_latin1)

lemma format_http_response_header:
  "format_http_response date status_code status_text content_type content_body =
     (if 4300 < digits_of_int status_code then Inl ValueError
      else
        (case encode_latin1 (header_text date status_code status_text content_type
                (length content_body)) of
           Inl e \<Rightarrow> Inl e
         | Inr header_bytes \<Rightarrow> Inr (header_bytes @ content_body)))"
  by (simp add: format_http_response_def str_of_int_def header_text_def SERVER_NAME_def Let_def)

lemma format_http_response_cases:
  "format_http_response date status_code status_text content_type content_body =
     (if 4300 < digits_of_int status_code then Inl ValueError
      else if list_all (\<lambda>c. c < 256) status_text \<and> list_all (\<lambda>c. c < 256) content_type
      then Inr (map char_of (header_text date status_code status_text content_type
                  (length content_body)) @ content_body)
      else Inl UnicodeEncodeError)"
  by (simp add: format_http_response_header encode_latin1_def header_text_latin1_iff)

lemma format_http_response_ok:
  assumes "list_all (\<lambda>c. c < 256) status_text" and "list_all (\<lambda>c. c < 256) content_type"
    and "digits_of_int status_code \<le> 4300"
  shows "format_http_response date status_code status_text content_type content_body =
           Inr (map char_of (header_text date status_code status_text content_type
                  (length content_body)) @ content_body)"
  using assms by (simp add: format_http_response_cases)

lemma format_http_response_digits:
  "format_http_response date status_code status_text content_type content_body = Inr r \<Longrightarrow>
   digits_of_int status_code \<le> 4300"
  by (simp add: format_http_response_cases split: if_splits)

lemma digits_of_status_codes:
  "digits_of_int 200 \<le> 4300" "digits_of_int 400 \<le> 4300" "digits_of_int 404 \<le> 4300"
  by (simp_all add: digits_of_int_def str_of_nat.simps)

text \<open>
  An integer has at most \<open>k\<close> digits when its absolute value is below \<open>10 ^ k\<close>.
\<close>

lemma str_of_nat_length:
  "length (str_of_nat n) = (if n < 10 then 1 else Suc (length (str_of_nat (n div 10))))"
  by (subst str_of_nat.simps) simp

lemma str_of_nat_nonempty: "str_of_nat n \<noteq> []"
  by (subst str_of_nat.simps) simp

lemma str_of_nat_length_le:
  "0 < k \<Longrightarrow> (length (str_of_nat n) \<le> k) = (n < 10 ^ k)"
proof (induction n arbitrary: k rule: str_of_nat.induct)
  case (1 n)
  show ?case
  proof (cases "n < 10")
    case True
    have "(10::nat) ^ 1 \<le> 10 ^ k" using 1(2) by (intro power_increasing) simp_all
    with True have "n < 10 ^ k" by simp
    moreover from True have "length (str_of_nat n) = 1" by (subst str_of_nat_length) simp
    ultimately show ?thesis using 1(2) by simp
  next
    case False
    then have len: "length (str_of_nat n) = Suc (length (str_of_nat (n div 10)))"
      by (subst str_of_nat_length) simp
    show ?thesis
    proof (cases k)
      case 0
      with 1(2) show ?thesis by simp
    next
      case (Suc j)
      show ?thesis
      proof (cases "j = 0")
        case True
        with Suc False len show ?thesis by (simp add: str_of_nat_nonempty)
      next
        case nz: False
        then have "(length (str_of_nat (n div 10)) \<le> j) = (n div 10 < 10 ^ j)"
          using 1(1) [OF False, of j] by simp
        moreover have "(n div 10 < 10 ^ j) = (n < 10 ^ j * 10)"
          by (simp add: div_less_iff_less_mult)
        ultimately show ?thesis using Suc len by (simp add: mult.commute)
      qed
    qed
  qed
qed

lemma digits_of_int_le:
  "0 < k \<Longrightarrow> (digits_of_int i \<le> k) = (\<bar>i\<bar> < 10 ^ k)"
proof -
  assume k: "0 < k"
  have "(nat \<bar>i\<bar> < 10 ^ k) = (\<bar>i\<bar> < 10 ^ k)"
  proof -
    have "(nat \<bar>i\<bar> < 10 ^ k) = (int (nat \<bar>i\<bar>) < int (10 ^ k))" by simp
    also have "\<dots> = (\<bar>i\<bar> < 10 ^ k)" by simp
    finally show ?thesis .
  qed
  with k show ?thesis by (simp add: digits_of_int_def str_of_nat_length_le)
qed

lemma too_many_digits: "0 < k \<Longrightarrow> k < digits_of_int (10 ^ k)"
proof -
  assume k: "0 < k"
  have "\<not> (\<bar>10 ^ k :: int\<bar> < 10 ^ k)" by simp
  then have "\<not> digits_of_int (10 ^ k) \<le> k" unfolding digits_of_int_le [OF k] .
  then show ?thesis by simp
qed

lemma digits_limit_exceeded: "4300 < digits_of_int (10 ^ 4300)"
  by (rule too_many_digits) simp

lemma decode_latin1_append: "decode_latin1 (a @ b) = decode_latin1 a @ decode_latin1 b"
  by (simp add: decode_latin1_def)

lemma decimal_of_int_no_cr: "13 \<notin> set (decimal_of_int i)"
  using str_of_nat_digits [of "nat i"] str_of_nat_digits [of "nat (- i)"]
  by (auto simp: decimal_of_int_def list_all_iff)

lemma header_text_status_line:
  assumes "13 \<notin> set status_text"
  shows "takeWhile (\<lambda>c. c \<noteq> 13)
           (header_text date status_code status_text content_type n @ rest) =
         str ''HTTP/1.1 '' @ decimal_of_int status_code @ str '' '' @ status_text"
proof -
  let ?line = "str ''HTTP/1.1 '' @ decimal_of_int status_code @ str '' '' @ status_text"
  have free: "\<And>c. c \<in> set ?line \<Longrightarrow> c \<noteq> 13"
    using assms decimal_of_int_no_cr [of status_code] by auto
  obtain tail where "header_text date status_code status_text content_type n @ rest =
      ?line @ 13 # tail"
    by (simp add: header_text_def)
  moreover have "takeWhile (\<lambda>c. c \<noteq> 13) (?line @ 13 # tail) =
      ?line @ takeWhile (\<lambda>c. c \<noteq> 13) (13 # tail)"
    using free by (rule takeWhile_append2)
  ultimately show ?thesis by simp
qed

lemma status_line_format:
  assumes "list_all (\<lambda>c. c < 256) status_text" and "list_all (\<lambda>c. c < 256) content_type"
    and "13 \<notin> set status_text"
    and "format_http_response date status_code status_text content_type content_body = Inr r"
  shows "status_line r = str ''HTTP/1.1 '' @ decimal_of_int status_code @ str '' '' @ status_text"
proof -
  let ?h = "header_text date status_code status_text content_type (length content_body)"
  have "r = map char_of ?h @ content_body"
    using assms(4)
      format_http_response_ok [OF assms(1,2) format_http_response_digits [OF assms(4)]]
    by simp
  moreover have "decode_latin1 (map char_of ?h) = ?h"
    using header_text_latin1 [OF assms(1,2)] by (rule decode_encode_latin1)
  ultimately have "decode_latin1 r = ?h @ decode_latin1 content_body"
    by (simp add: decode_latin1_append)
  then show ?thesis
    using header_text_status_line [OF assms(3)] by (simp add: status_line_def)
qed

lemma mime_lookup_latin1:
  "list_all (\<lambda>c. c < 256) (dict_get MIME_TYPES k DEFAULT_MIME_TYPE)"
  by (simp add: dict_get_mime_spec spec_content_type_def)

lemma get_mime_type_latin1: "list_all (\<lambda>c. c < 256) (get_mime_type p)"
proof (cases "46 \<in> set p")
  case True
  then show ?thesis by (simp add: get_mime_type_def Let_def mime_lookup_latin1)
next
  case False
  then show ?thesis by (simp add: get_mime_type_def DEFAULT_MIME_TYPE_def)
qed

lemma decimal_of_int_200: "decimal_of_int 200 = str ''200''"
  by (simp add: decimal_of_int_def str_of_nat.simps)

lemma decimal_of_int_400: "decimal_of_int 400 = str ''400''"
  by (simp add: decimal_of_int_def str_of_nat.simps)

lemma decimal_of_int_404: "decimal_of_int 404 = str ''404''"
  by (simp add: decimal_of_int_def str_of_nat.simps)

lemma status_line_200:
  "format_http_response date 200 (str ''OK'') (get_mime_type p) body = Inr r \<Longrightarrow>
   status_line r = str ''HTTP/1.1 200 OK''"
  using status_line_format [of "str ''OK''" "get_mime_type p" date 200 body r]
  by (simp add: get_mime_type_latin1 decimal_of_int_200)

lemma status_line_404:
  "format_http_response date 404 (str ''Not Found'') (str ''text/html'') body = Inr r \<Longrightarrow>
   status_line r = str ''HTTP/1.1 404 Not Found''"
  using status_line_format [of "str ''Not Found''" "str ''text/html''" date 404 body r]
  by (simp add: decimal_of_int_404)

lemma status_line_400:
  "format_http_response date 400 (str ''Bad Request'') (str ''text/html'') body = Inr r \<Longrightarrow>
   status_line r = str ''HTTP/1.1 400 Bad Request''"
  using status_line_format [of "str ''Bad Request''" "str ''text/html''" date 400 body r]
  by (simp add: decimal_of_int_400)

lemma serve_path_status:
  assumes "serve_path w doc_root full_path = Inr r"
  shows "status_line r = str ''HTTP/1.1 200 OK'' \<or> status_line r = str ''HTTP/1.1 404 Not Found''"
proof (cases "startswith (abspath (getcwd w) full_path) (abspath (getcwd w) doc_root)")
  case False
  with assms have "format_http_response (formatdate w) 404 (str ''Not Found'') (str ''text/html'')
      ''<h1>404 Not Found (Security Violation)</h1>'' = Inr r"
    by (simp add: serve_path_def)
  then have "status_line r = str ''HTTP/1.1 404 Not Found''" by (rule status_line_404)
  then show ?thesis by (rule disjI2)
next
  case inside: True
  show ?thesis
  proof (cases "open_rb w full_path")
    case (Inr content_body)
    with inside assms have "format_http_response (formatdate w) 200 (str ''OK'')
        (get_mime_type full_path) content_body = Inr r"
      by (simp add: serve_path_def)
    then have "status_line r = str ''HTTP/1.1 200 OK''" by (rule status_line_200)
    then show ?thesis by (rule disjI1)
  next
    case (Inl e)
    show ?thesis
    proof (cases "e = FileNotFoundError")
      case True
      with Inl inside assms have "format_http_response (formatdate w) 404 (str ''Not Found'')
          (str ''text/html'') ''<h1>404 Not Found</h1>'' = Inr r"
        by (simp add: serve_path_def)
      then have "status_line r = str ''HTTP/1.1 404 Not Found''" by (rule status_line_404)
  then show ?thesis by (rule disjI2)
    next
      case False
      with Inl inside assms show ?thesis by (simp add: serve_path_def)
    qed
  qed
qed

section \<open>Evaluation of concrete cases\<close>

lemmas path_eval =
  abspath_def isabs_def startswith_def endswith_def suffix_to_prefix normpath_def
  py_split.simps(2) join_def lstrip_def full_path_of_def Let_def

lemmas mime_eval =
  get_mime_type_def DEFAULT_MIME_TYPE_def MIME_TYPES_def dict_get_def lower_def lower_cp_def
  py_split.simps(2) Let_def

lemmas world_eval = example_world_def example_fs_def

lemma get_mime_type_examples:
  "get_mime_type (str ''/srv/www/style.css'') = str ''text/css''"
  "get_mime_type (str ''/srv/www/data.unknownext'') = str ''application/octet-stream''"
  "get_mime_type (str ''/srv/www/PHOTO.JPG'') = str ''image/jpeg''"
  "get_mime_type (str ''/srv/www.d/README'') = str ''application/octet-stream''"
  by (simp_all add: mime_eval)

lemma urllib_unquote_plain: "37 \<notin> set s \<Longrightarrow> urllib_unquote s = Inr s"
  by (simp add: urllib_unquote_def unquote_def)

lemma not_found_response:
  "format_http_response d 404 (str ''Not Found'') (str ''text/html'') ''<h1>404 Not Found</h1>'' =
     Inr (map char_of (header_text d 404 (str ''Not Found'') (str ''text/html'') 22)
          @ ''<h1>404 Not Found</h1>'')"
proof -
  have "length ''<h1>404 Not Found</h1>'' = 22" by simp
  moreover have "format_http_response d 404 (str ''Not Found'') (str ''text/html'')
      ''<h1>404 Not Found</h1>'' =
     Inr (map char_of (header_text d 404 (str ''Not Found'') (str ''text/html'')
            (length ''<h1>404 Not Found</h1>'')) @ ''<h1>404 Not Found</h1>'')"
    by (rule format_http_response_ok) (simp_all add: digits_of_status_codes)
  ultimately show ?thesis by (simp only:)
qed

lemma security_violation_response:
  "format_http_response d 404 (str ''Not Found'') (str ''text/html'')
     ''<h1>404 Not Found (Security Violation)</h1>'' =
     Inr (map char_of (header_text d 404 (str ''Not Found'') (str ''text/html'') 43)
          @ ''<h1>404 Not Found (Security Violation)</h1>'')"
proof -
  have "length ''<h1>404 Not Found (Security Violation)</h1>'' = 43" by simp
  moreover have "format_http_response d 404 (str ''Not Found'') (str ''text/html'')
      ''<h1>404 Not Found (Security Violation)</h1>'' =
     Inr (map char_of (header_text d 404 (str ''Not Found'') (str ''text/html'')
            (length ''<h1>404 Not Found (Security Violation)</h1>''))
          @ ''<h1>404 Not Found (Security Violation)</h1>'')"
    by (rule format_http_response_ok) (simp_all add: digits_of_status_codes)
  ultimately show ?thesis by (simp only:)
qed

lemma bad_request_response:
  "format_http_response d 400 (str ''Bad Request'') (str ''text/html'')
     ''<h1>400 Bad Request</h1>'' =
     Inr (map char_of (header_text d 400 (str ''Bad Request'') (str ''text/html'') 24)
          @ ''<h1>400 Bad Request</h1>'')"
proof -
  have "length ''<h1>400 Bad Request</h1>'' = 24" by simp
  moreover have "format_http_response d 400 (str ''Bad Request'') (str ''text/html'')
      ''<h1>400 Bad Request</h1>'' =
     Inr (map char_of (header_text d 400 (str ''Bad Request'') (str ''text/html'')
            (length ''<h1>400 Bad Request</h1>'')) @ ''<h1>400 Bad Request</h1>'')"
    by (rule format_http_response_ok) (simp_all add: digits_of_status_codes)
  ultimately show ?thesis by (simp only:)
qed

lemma ok_response:
  "format_http_response d 200 (str ''OK'') (get_mime_type p) body =
     Inr (map char_of (header_text d 200 (str ''OK'') (get_mime_type p) (length body)) @ body)"
  by (rule format_http_response_ok) (simp_all add: get_mime_type_latin1 digits_of_status_codes)

section \<open>Facts about serving a path and handling a request\<close>

lemma char_of_str: "map char_of (str s) = s"
  by (induction s) simp_all

text \<open>
  The decoder of the library never raises on a \<open>str\<close>, and keeps a malformed escape
  as it is.
\<close>

lemma urllib_unquote_never_raises: "\<exists>p. urllib_unquote s = Inr p"
  by (simp add: urllib_unquote_def)

lemma malformed_escape_kept: "urllib_unquote (str ''/%zz'') = Inr (str ''/%zz'')"
  by (simp add: urllib_unquote_def unquote_def is_hexdig_def utf8_step_def)

lemma error_bodies_differ:
  "h1 @ ''<h1>404 Not Found (Security Violation)</h1>'' \<noteq> h2 @ ''<h1>404 Not Found</h1>''"
proof
  assume "h1 @ ''<h1>404 Not Found (Security Violation)</h1>'' = h2 @ ''<h1>404 Not Found</h1>''"
  then have "take 6 (rev (h1 @ ''<h1>404 Not Found (Security Violation)</h1>'')) =
      take 6 (rev (h2 @ ''<h1>404 Not Found</h1>''))"
    by (rule arg_cong)
  then show False by simp
qed

lemma bad_request_body_differs:
  "h1 @ ''<h1>404 Not Found</h1>'' \<noteq> h2 @ ''<h1>400 Bad Request</h1>''"
proof
  assume "h1 @ ''<h1>404 Not Found</h1>'' = h2 @ ''<h1>400 Bad Request</h1>''"
  then have "take 6 (rev (h1 @ ''<h1>404 Not Found</h1>'')) =
      take 6 (rev (h2 @ ''<h1>400 Bad Request</h1>''))"
    by (rule arg_cong)
  then show False by simp
qed

lemma serve_path_rejected:
  assumes "\<not> startswith (abspath (getcwd w) full_path) (abspath (getcwd w) doc_root)"
  shows "serve_path w doc_root full_path =
     Inr (map char_of (header_text (formatdate w) 404 (str ''Not Found'') (str ''text/html'') 43)
          @ ''<h1>404 Not Found (Security Violation)</h1>'')"
  by (simp only: serve_path_def Let_def assms simp_thms if_True security_violation_response)

lemma serve_path_missing:
  assumes "startswith (abspath (getcwd w) full_path) (abspath (getcwd w) doc_root)"
    and "open_rb w full_path = Inl FileNotFoundError"
  shows "serve_path w doc_root full_path =
     Inr (map char_of (header_text (formatdate w) 404 (str ''Not Found'') (str ''text/html'') 22)
          @ ''<h1>404 Not Found</h1>'')"
  by (simp only: serve_path_def Let_def assms simp_thms if_True if_False sum.case
      not_found_response)

lemma serve_path_found:
  assumes "startswith (abspath (getcwd w) full_path) (abspath (getcwd w) doc_root)"
    and "open_rb w full_path = Inr content_body"
  shows "serve_path w doc_root full_path =
     Inr (map char_of (header_text (formatdate w) 200 (str ''OK'') (get_mime_type full_path)
            (length content_body)) @ content_body)"
  by (simp only: serve_path_def Let_def assms simp_thms if_True if_False sum.case ok_response)

lemma serve_path_raises:
  assumes "startswith (abspath (getcwd w) full_path) (abspath (getcwd w) doc_root)"
    and "open_rb w full_path = Inl e" and "e \<noteq> FileNotFoundError"
  shows "serve_path w doc_root full_path = Inl e"
  by (simp only: serve_path_def Let_def assms simp_thms if_True if_False sum.case)

lemma build_response_decoded:
  "unq uri_path = Inr p \<Longrightarrow>
   build_response unq w uri_path doc_root = serve_path w doc_root (full_path_of p doc_root)"
  by (simp add: build_response_def)

text \<open>
  The handler of line 72 builds the 400 response when the decoder raises. The decoder
  the program calls never raises, so \<open>build_response\<close> never returns that response.
\<close>

lemma build_response_decode_raises:
  assumes "unq uri_path = Inl e"
  shows "build_response unq w uri_path doc_root =
     Inr (map char_of (header_text (formatdate w) 400 (str ''Bad Request'')
            (str ''text/html'') 24) @ ''<h1>400 Bad Request</h1>'')"
proof -
  from assms have "build_response unq w uri_path doc_root =
      format_http_response (formatdate w) 400 (str ''Bad Request'') (str ''text/html'')
        ''<h1>400 Bad Request</h1>''"
    by (simp add: build_response_def)
  then show ?thesis by (simp only: bad_request_response)
qed

lemma build_response_never_bad_request:
  assumes "build_response urllib_unquote w uri_path doc_root = Inr r"
  shows "status_line r \<noteq> str ''HTTP/1.1 400 Bad Request''"
proof -
  obtain p where p: "urllib_unquote uri_path = Inr p"
    using urllib_unquote_never_raises [of uri_path] by (elim exE)
  from assms have "serve_path w doc_root (full_path_of p doc_root) = Inr r"
    by (simp only: build_response_decoded [of urllib_unquote uri_path p, OF p])
  then have "status_line r = str ''HTTP/1.1 200 OK''
      \<or> status_line r = str ''HTTP/1.1 404 Not Found''"
    by (rule serve_path_status)
  then show ?thesis by auto
qed

lemmas request_eval =
  handle_request_def closed_silently_def decode_latin1_def split_ws_def isspace_def
  py_split.simps(2)

lemma request_line_split:
  "py_split [13, 10] (decode_latin1 request_data) =
     request_line_of request_data # tl (py_split [13, 10] (decode_latin1 request_data))"
proof (cases "py_split [13, 10] (decode_latin1 request_data)")
  case Nil
  then show ?thesis by (simp add: py_split_nonempty)
next
  case (Cons l ls)
  then show ?thesis by (simp add: request_line_of_def)
qed

lemma handle_request_get:
  assumes "recv_loop (incoming c) [] = Inr request_data" and "request_data \<noteq> []"
    and "split_ws (request_line_of request_data) = [str ''GET'', uri_path, http_version]"
  shows "handle_request unq w c doc_root =
     (case build_response unq w uri_path doc_root of
        Inl e \<Rightarrow> \<lparr>sent = [], closed = False, raised = Some e\<rparr>
      | Inr response_bytes \<Rightarrow>
          (case send_error c of
             None \<Rightarrow> \<lparr>sent = response_bytes, closed = True, raised = None\<rparr>
           | Some k \<Rightarrow> \<lparr>sent = take k response_bytes, closed = True, raised = None\<rparr>))"
  unfolding handle_request_def
  by (subst request_line_split) (simp add: assms)

lemma handle_request_malformed:
  assumes "recv_loop (incoming c) [] = Inr request_data"
    and "length (split_ws (request_line_of request_data)) \<noteq> 3
         \<or> hd (split_ws (request_line_of request_data)) \<noteq> str ''GET''"
  shows "handle_request unq w c doc_root = closed_silently"
proof (cases "request_data = []")
  case True
  with assms(1) show ?thesis by (simp add: handle_request_def)
next
  case False
  have "(case split_ws (request_line_of request_data) of
           [method, uri_path, http_version] \<Rightarrow>
             if method \<noteq> str ''GET'' then closed_silently
             else
               (case build_response unq w uri_path doc_root of
                  Inl e \<Rightarrow> \<lparr>sent = [], closed = False, raised = Some e\<rparr>
                | Inr response_bytes \<Rightarrow>
                    (case send_error c of
                       None \<Rightarrow> \<lparr>sent = response_bytes, closed = True, raised = None\<rparr>
                     | Some k \<Rightarrow>
                         \<lparr>sent = take k response_bytes, closed = True, raised = None\<rparr>))
         | _ \<Rightarrow> closed_silently) = closed_silently"
    using assms(2) by (auto split: list.splits)
  with False assms(1) show ?thesis
    unfolding handle_request_def by (subst request_line_split) simp
qed

text \<open>
  An exception leaves \<open>build_response\<close> only when the file load raises something other
  than \<open>FileNotFoundError\<close>.
\<close>

lemma build_response_raises_only_on_load:
  assumes "build_response unq w uri_path doc_root = Inl e"
  shows "e \<noteq> FileNotFoundError
       \<and> (\<exists>p. unq uri_path = Inr p \<and> open_rb w (full_path_of p doc_root) = Inl e)"
proof (cases "unq uri_path")
  case (Inl x)
  then have "build_response unq w uri_path doc_root =
      format_http_response (formatdate w) 400 (str ''Bad Request'') (str ''text/html'')
        ''<h1>400 Bad Request</h1>''"
    by (simp add: build_response_def)
  with assms show ?thesis by (simp only: bad_request_response) simp
next
  case (Inr p)
  let ?fp = "full_path_of p doc_root"
  have b: "build_response unq w uri_path doc_root = serve_path w doc_root ?fp"
    using Inr by (rule build_response_decoded)
  show ?thesis
  proof (cases "startswith (abspath (getcwd w) ?fp) (abspath (getcwd w) doc_root)")
    case False
    from serve_path_rejected [OF False] assms b show ?thesis by simp
  next
    case inside: True
    show ?thesis
    proof (cases "open_rb w ?fp")
      case o: (Inr content_body)
      from serve_path_found [OF inside o] assms b show ?thesis by simp
    next
      case o: (Inl x)
      show ?thesis
      proof (cases "x = FileNotFoundError")
        case True
        from serve_path_missing [OF inside o [unfolded True]] assms b show ?thesis by simp
      next
        case False
        from serve_path_raises [OF inside o False] assms b have "x = e" by simp
        with False o Inr show ?thesis by blast
      qed
    qed
  qed
qed

lemma crlf_bytes: "map char_of [13, 10 :: nat] = [CHR 0x0D, CHR 0x0A]"
proof -
  have "[13, 10 :: nat] = str [CHR 0x0D, CHR 0x0A]" by simp
  then show ?thesis by (simp only: char_of_str)
qed

lemma header_text_date:
  "\<exists>pre post. \<forall>d. map char_of (header_text d c t ct n) @ body =
      pre @ ''Date: '' @ d @ [CHR 0x0D, CHR 0x0A] @ post"
proof -
  let ?first = "str ''HTTP/1.1 '' @ decimal_of_int c @ str '' '' @ t @ [13, 10]"
  let ?rest = "str ''Server: BobsDiscountServer/2.1'' @ [13, 10]
      @ str ''Content-Type: '' @ ct @ [13, 10]
      @ str ''Content-Length: '' @ str_of_nat n @ [13, 10]
      @ str ''Connection: close'' @ [13, 10] @ [13, 10]"
  have "\<forall>d. map char_of (header_text d c t ct n) @ body =
      map char_of ?first @ ''Date: '' @ d @ [CHR 0x0D, CHR 0x0A] @ (map char_of ?rest @ body)"
  proof
    fix d
    have "header_text d c t ct n = ?first @ str ''Date: '' @ str d @ [13, 10] @ ?rest"
      by (simp add: header_text_def)
    then have "map char_of (header_text d c t ct n) =
        map char_of ?first @ map char_of (str ''Date: '') @ map char_of (str d)
          @ map char_of [13, 10 :: nat] @ map char_of ?rest"
      by (simp only: map_append)
    then show "map char_of (header_text d c t ct n) @ body =
      map char_of ?first @ ''Date: '' @ d @ [CHR 0x0D, CHR 0x0A] @ (map char_of ?rest @ body)"
      by (simp only: char_of_str crlf_bytes append_assoc)
  qed
  then show ?thesis by blast
qed

lemma build_response_clock:
  assumes "getcwd w1 = getcwd w2" and "open_rb w1 = open_rb w2"
  shows "(\<exists>e. build_response unq w1 uri_path doc_root = Inl e
             \<and> build_response unq w2 uri_path doc_root = Inl e)
       \<or> (\<exists>pre post.
             build_response unq w1 uri_path doc_root =
               Inr (pre @ ''Date: '' @ formatdate w1 @ [CHR 0x0D, CHR 0x0A] @ post)
           \<and> build_response unq w2 uri_path doc_root =
               Inr (pre @ ''Date: '' @ formatdate w2 @ [CHR 0x0D, CHR 0x0A] @ post))"
proof -
  let ?G = ?thesis
  have same: "\<And>c t ct n body.
      \<lbrakk>build_response unq w1 uri_path doc_root = Inr (map char_of (header_text (formatdate w1) c t ct n) @ body);
       build_response unq w2 uri_path doc_root = Inr (map char_of (header_text (formatdate w2) c t ct n) @ body)\<rbrakk>
      \<Longrightarrow> ?G"
  proof -
    fix c t ct n body
    assume 1: "build_response unq w1 uri_path doc_root =
        Inr (map char_of (header_text (formatdate w1) c t ct n) @ body)"
      and 2: "build_response unq w2 uri_path doc_root =
        Inr (map char_of (header_text (formatdate w2) c t ct n) @ body)"
    obtain pre post where pp: "\<forall>d. map char_of (header_text d c t ct n) @ body =
        pre @ ''Date: '' @ d @ [CHR 0x0D, CHR 0x0A] @ post"
      using header_text_date [of c t ct n body] by blast
    from pp have "map char_of (header_text (formatdate w1) c t ct n) @ body =
        pre @ ''Date: '' @ formatdate w1 @ [CHR 0x0D, CHR 0x0A] @ post" by (rule spec)
    moreover from pp have "map char_of (header_text (formatdate w2) c t ct n) @ body =
        pre @ ''Date: '' @ formatdate w2 @ [CHR 0x0D, CHR 0x0A] @ post" by (rule spec)
    ultimately have "build_response unq w1 uri_path doc_root =
               Inr (pre @ ''Date: '' @ formatdate w1 @ [CHR 0x0D, CHR 0x0A] @ post)
           \<and> build_response unq w2 uri_path doc_root =
               Inr (pre @ ''Date: '' @ formatdate w2 @ [CHR 0x0D, CHR 0x0A] @ post)"
      using 1 2 by (simp only: simp_thms)
    then show ?G by blast
  qed
  show ?thesis
  proof (cases "unq uri_path")
    case (Inl e)
    have "build_response unq w1 uri_path doc_root =
        Inr (map char_of (header_text (formatdate w1) 400 (str ''Bad Request'')
               (str ''text/html'') 24) @ ''<h1>400 Bad Request</h1>'')"
      and "build_response unq w2 uri_path doc_root =
        Inr (map char_of (header_text (formatdate w2) 400 (str ''Bad Request'')
               (str ''text/html'') 24) @ ''<h1>400 Bad Request</h1>'')"
      using Inl by (simp_all only: build_response_def sum.case bad_request_response)
    then show ?thesis by (rule same)
  next
    case (Inr p)
    let ?fp = "full_path_of p doc_root"
    have b1: "build_response unq w1 uri_path doc_root = serve_path w1 doc_root ?fp"
      and b2: "build_response unq w2 uri_path doc_root = serve_path w2 doc_root ?fp"
      using Inr by (simp_all only: build_response_decoded)
    show ?thesis
    proof (cases "startswith (abspath (getcwd w1) ?fp) (abspath (getcwd w1) doc_root)")
      case out1: False
      then have out2: "\<not> startswith (abspath (getcwd w2) ?fp) (abspath (getcwd w2) doc_root)"
        unfolding assms(1) .
      have x1: "build_response unq w1 uri_path doc_root =
          Inr (map char_of (header_text (formatdate w1) 404 (str ''Not Found'')
                 (str ''text/html'') 43) @ ''<h1>404 Not Found (Security Violation)</h1>'')"
        unfolding b1 using out1 by (rule serve_path_rejected)
      have x2: "build_response unq w2 uri_path doc_root =
          Inr (map char_of (header_text (formatdate w2) 404 (str ''Not Found'')
                 (str ''text/html'') 43) @ ''<h1>404 Not Found (Security Violation)</h1>'')"
        unfolding b2 using out2 by (rule serve_path_rejected)
      from x1 x2 show ?thesis by (rule same)
    next
      case in1: True
      then have in2: "startswith (abspath (getcwd w2) ?fp) (abspath (getcwd w2) doc_root)"
        unfolding assms(1) .
      show ?thesis
      proof (cases "open_rb w1 ?fp")
        case o1: (Inr content_body)
        then have o2: "open_rb w2 ?fp = Inr content_body" unfolding assms(2) .
        have x1: "build_response unq w1 uri_path doc_root =
            Inr (map char_of (header_text (formatdate w1) 200 (str ''OK'') (get_mime_type ?fp)
                   (length content_body)) @ content_body)"
          unfolding b1 using in1 o1 by (rule serve_path_found)
        have x2: "build_response unq w2 uri_path doc_root =
            Inr (map char_of (header_text (formatdate w2) 200 (str ''OK'') (get_mime_type ?fp)
                   (length content_body)) @ content_body)"
          unfolding b2 using in2 o2 by (rule serve_path_found)
        from x1 x2 show ?thesis by (rule same)
      next
        case o1: (Inl e)
        then have o2: "open_rb w2 ?fp = Inl e" unfolding assms(2) .
        show ?thesis
        proof (cases "e = FileNotFoundError")
          case True
          have x1: "build_response unq w1 uri_path doc_root =
              Inr (map char_of (header_text (formatdate w1) 404 (str ''Not Found'')
                     (str ''text/html'') 22) @ ''<h1>404 Not Found</h1>'')"
            unfolding b1 using in1 o1 [unfolded True] by (rule serve_path_missing)
          have x2: "build_response unq w2 uri_path doc_root =
              Inr (map char_of (header_text (formatdate w2) 404 (str ''Not Found'')
                     (str ''text/html'') 22) @ ''<h1>404 Not Found</h1>'')"
            unfolding b2 using in2 o2 [unfolded True] by (rule serve_path_missing)
          from x1 x2 show ?thesis by (rule same)
        next
          case False
          have "build_response unq w1 uri_path doc_root = Inl e"
            unfolding b1 using in1 o1 False by (rule serve_path_raises)
          moreover have "build_response unq w2 uri_path doc_root = Inl e"
            unfolding b2 using in2 o2 False by (rule serve_path_raises)
          ultimately show ?thesis by blast
        qed
      qed
    qed
  qed
qed

lemma three_tokens:
  assumes "length xs = 3" and "hd xs = m"
  shows "\<exists>u v. xs = [m, u, v]"
proof -
  from assms(1) obtain a b c where "xs = [a, b, c]"
    by (auto simp: numeral_3_eq_3 length_Suc_conv)
  with assms(2) show ?thesis by simp
qed

lemma request_line_of_empty: "split_ws (request_line_of []) = []"
  by (simp add: request_line_of_def decode_latin1_def split_ws_def)

lemma index_page_served:
  assumes "getcwd w = str ''/home/bob''" and "open_rb w = example_fs"
  shows "build_response urllib_unquote w (str ''/'') (str ''/srv/www'') =
     Inr (map char_of (header_text (formatdate w) 200 (str ''OK'') (str ''text/html'') 12)
          @ ''<p>hello</p>'')"
proof -
  have u: "urllib_unquote (str ''/'') = Inr (str ''/'')"
    by (rule urllib_unquote_plain) simp
  have fp: "full_path_of (str ''/'') (str ''/srv/www'') = str ''/srv/www/index.html''"
    by (simp add: path_eval)
  have chk: "startswith (abspath (getcwd w) (str ''/srv/www/index.html''))
      (abspath (getcwd w) (str ''/srv/www''))"
    by (simp add: path_eval)
  have op: "open_rb w (str ''/srv/www/index.html'') = Inr ''<p>hello</p>''"
    by (simp add: assms(2) example_fs_def)
  have mt: "get_mime_type (str ''/srv/www/index.html'') = str ''text/html''"
    by (simp add: mime_eval)
  have len: "length ''<p>hello</p>'' = 12" by simp
  show ?thesis
    by (simp only: build_response_decoded [of urllib_unquote _ _, OF u] fp
        serve_path_found [OF chk op] mt len)
qed

lemma example_connection1_answered:
  "handle_request urllib_unquote example_world example_connection1 (str ''/srv/www'') =
     \<lparr>sent = map char_of (header_text ''Wed, 04 Nov 2026 07:24:00 GMT'' 200 (str ''OK'')
               (str ''text/html'') 12) @ ''<p>hello</p>'',
      closed = True, raised = None\<rparr>"
proof -
  have r: "build_response urllib_unquote example_world (str ''/'') (str ''/srv/www'') =
     Inr (map char_of (header_text (formatdate example_world) 200 (str ''OK'')
            (str ''text/html'') 12) @ ''<p>hello</p>'')"
    by (rule index_page_served) (simp_all add: example_world_def)
  have "handle_request urllib_unquote example_world example_connection1 (str ''/srv/www'') =
     (case build_response urllib_unquote example_world (str ''/'') (str ''/srv/www'') of
        Inl e \<Rightarrow> \<lparr>sent = [], closed = False, raised = Some e\<rparr>
      | Inr response_bytes \<Rightarrow>
          (case send_error example_connection1 of
             None \<Rightarrow> \<lparr>sent = response_bytes, closed = True, raised = None\<rparr>
           | Some k \<Rightarrow> \<lparr>sent = take k response_bytes, closed = True, raised = None\<rparr>))"
    by (rule handle_request_get [where http_version = "str ''HTTP/1.1''"
          and request_data = "''GET / HTTP/1.1'' @ [CHR 0x0D, CHR 0x0A] @ ''Host: a''
            @ [CHR 0x0D, CHR 0x0A, CHR 0x0D, CHR 0x0A]"])
      (simp_all add: example_connection1_def request_line_of_def request_eval)
  with r show ?thesis by (simp add: example_connection1_def example_world_def)
qed

lemma example_connection2_answered:
  "handle_request urllib_unquote example_world_later example_connection2 (str ''/srv/www'') =
     \<lparr>sent = map char_of (header_text ''Thu, 05 Nov 2026 08:00:00 GMT'' 200 (str ''OK'')
               (str ''text/html'') 12) @ ''<p>hello</p>'',
      closed = True, raised = None\<rparr>"
proof -
  have r: "build_response urllib_unquote example_world_later (str ''/'') (str ''/srv/www'') =
     Inr (map char_of (header_text (formatdate example_world_later) 200 (str ''OK'')
            (str ''text/html'') 12) @ ''<p>hello</p>'')"
    by (rule index_page_served) (simp_all add: example_world_later_def example_world_def)
  have "handle_request urllib_unquote example_world_later example_connection2
      (str ''/srv/www'') =
     (case build_response urllib_unquote example_world_later (str ''/'') (str ''/srv/www'') of
        Inl e \<Rightarrow> \<lparr>sent = [], closed = False, raised = Some e\<rparr>
      | Inr response_bytes \<Rightarrow>
          (case send_error example_connection2 of
             None \<Rightarrow> \<lparr>sent = response_bytes, closed = True, raised = None\<rparr>
           | Some k \<Rightarrow> \<lparr>sent = take k response_bytes, closed = True, raised = None\<rparr>))"
    by (rule handle_request_get [where http_version = "str ''HTTP/1.1''"
          and request_data = "''GET / HTTP/1.1'' @ [CHR 0x0D, CHR 0x0A, CHR 0x0D, CHR 0x0A]"])
      (simp_all add: example_connection2_def request_line_of_def request_eval)
  with r show ?thesis by (simp add: example_connection2_def example_world_later_def)
qed

section \<open>The request line and the chunks of the stream\<close>

text \<open>
  The read loop stops at the end of the stream or at the first buffer holding
  CR LF CR LF, so the buffer is a beginning of the stream that is whole or holds the
  terminator; in both cases its request line is that of the stream, however the
  stream was cut into chunks.
\<close>

lemma contains_sublist: "contains sub s = sublist sub s"
  by (induction s) (simp_all add: sublist_Cons_right)

lemma contains_appendI: "contains sub (p @ sub @ q)"
  by (simp add: contains_sublist)

lemma contains_decompose: "contains sub s \<Longrightarrow> \<exists>p q. s = p @ sub @ q"
  by (simp add: contains_sublist sublist_def)

lemma first_part_stable:
  assumes "contains [a, b] s"
  shows "(case py_split [a, b] (s @ r) of [] \<Rightarrow> [] | l # _ \<Rightarrow> l) =
         (case py_split [a, b] s of [] \<Rightarrow> [] | l # _ \<Rightarrow> l)"
  using assms
proof (induction s)
  case Nil
  then show ?case by simp
next
  case (Cons x xs)
  show ?case
  proof (cases "prefix [a, b] (x # xs)")
    case True
    then have "prefix [a, b] (x # xs @ r)" by (cases xs) auto
    with True show ?thesis by (simp add: py_split.simps(2))
  next
    case False
    with Cons.prems have c: "contains [a, b] xs" by auto
    then obtain y ys where xs: "xs = y # ys" by (cases xs) auto
    from False xs have np: "\<not> prefix [a, b] (x # xs @ r)" by simp
    obtain h t where ht: "py_split [a, b] xs = h # t"
      using py_split_nonempty [of "[a, b]" xs] by (cases "py_split [a, b] xs") auto
    obtain h' t' where ht': "py_split [a, b] (xs @ r) = h' # t'"
      using py_split_nonempty [of "[a, b]" "xs @ r"] by (cases "py_split [a, b] (xs @ r)") auto
    from Cons.IH [OF c] ht ht' have "h' = h" by simp
    with False np ht ht' show ?thesis by (simp add: py_split.simps(2))
  qed
qed

lemma request_line_stable:
  assumes "contains [CHR 0x0D, CHR 0x0A, CHR 0x0D, CHR 0x0A] d"
  shows "request_line_of (d @ rest) = request_line_of d"
proof -
  from assms obtain p q where "d = p @ [CHR 0x0D, CHR 0x0A, CHR 0x0D, CHR 0x0A] @ q"
    using contains_decompose by blast
  then have "decode_latin1 d = decode_latin1 p @ [13, 10] @ ([13, 10] @ decode_latin1 q)"
    by (simp add: decode_latin1_def)
  then have "contains [13, 10] (decode_latin1 d)"
    by (simp only: contains_appendI)
  then show ?thesis
    by (simp only: request_line_of_def decode_latin1_append first_part_stable)
qed

lemma recv_loop_Data:
  "chunk \<noteq> [] \<Longrightarrow>
   recv_loop (Data chunk # events) request_data =
     (if contains [CHR 0x0D, CHR 0x0A, CHR 0x0D, CHR 0x0A] (request_data @ chunk)
      then Inr (request_data @ chunk)
      else recv_loop events (request_data @ chunk))"
  by (simp only: recv_loop.simps if_False)

lemma recv_loop_prefix:
  assumes "recv_loop (map Data chunks) request_data = Inr d" and "[] \<notin> set chunks"
  shows "\<exists>rest. request_data @ concat chunks = d @ rest
           \<and> (rest = [] \<or> contains [CHR 0x0D, CHR 0x0A, CHR 0x0D, CHR 0x0A] d)"
  using assms
proof (induction chunks arbitrary: request_data)
  case Nil
  then have f: "request_data @ concat [] = d @ [] \<and>
      ([] = [] \<or> contains [CHR 0x0D, CHR 0x0A, CHR 0x0D, CHR 0x0A] d)"
    by simp
  show ?case by (rule exI [where x = "[]"]) (rule f)
next
  case (Cons chunk chunks)
  from Cons.prems(2) have ne: "chunk \<noteq> []" and rest: "[] \<notin> set chunks" by auto
  from Cons.prems(1) have step:
    "(if contains [CHR 0x0D, CHR 0x0A, CHR 0x0D, CHR 0x0A] (request_data @ chunk)
      then Inr (request_data @ chunk)
      else recv_loop (map Data chunks) (request_data @ chunk)) = Inr d"
    by (simp only: list.map recv_loop_Data [OF ne])
  show ?case
  proof (cases "contains [CHR 0x0D, CHR 0x0A, CHR 0x0D, CHR 0x0A] (request_data @ chunk)")
    case True
    with step have d: "request_data @ chunk = d" by (simp only: if_True sum.inject)
    have "request_data @ concat (chunk # chunks) = (request_data @ chunk) @ concat chunks"
      by simp
    with True have f: "request_data @ concat (chunk # chunks) = d @ concat chunks
        \<and> (concat chunks = [] \<or> contains [CHR 0x0D, CHR 0x0A, CHR 0x0D, CHR 0x0A] d)"
      unfolding d by (simp only: simp_thms)
    show ?thesis by (rule exI [where x = "concat chunks"]) (rule f)
  next
    case False
    with step have "recv_loop (map Data chunks) (request_data @ chunk) = Inr d"
      by (simp only: if_False)
    from Cons.IH [OF this rest] obtain r where
      "(request_data @ chunk) @ concat chunks = d @ r
        \<and> (r = [] \<or> contains [CHR 0x0D, CHR 0x0A, CHR 0x0D, CHR 0x0A] d)"
      by (elim exE)
    then have f: "request_data @ concat (chunk # chunks) = d @ r
        \<and> (r = [] \<or> contains [CHR 0x0D, CHR 0x0A, CHR 0x0D, CHR 0x0A] d)"
      by (simp only: concat.simps append_assoc)
    show ?thesis by (rule exI [where x = r]) (rule f)
  qed
qed

lemma request_line_independent_of_chunking:
  assumes "recv_loop (map Data chunks1) [] = Inr d1" and "[] \<notin> set chunks1"
    and "recv_loop (map Data chunks2) [] = Inr d2" and "[] \<notin> set chunks2"
    and "concat chunks1 = concat chunks2"
  shows "request_line_of d1 = request_line_of d2"
proof -
  from recv_loop_prefix [OF assms(1,2)] obtain rest1
    where 1: "concat chunks1 = d1 @ rest1"
      and c1: "rest1 = [] \<or> contains [CHR 0x0D, CHR 0x0A, CHR 0x0D, CHR 0x0A] d1"
    by auto
  from recv_loop_prefix [OF assms(3,4)] obtain rest2
    where 2: "concat chunks2 = d2 @ rest2"
      and c2: "rest2 = [] \<or> contains [CHR 0x0D, CHR 0x0A, CHR 0x0D, CHR 0x0A] d2"
    by auto
  from c1 have "request_line_of (d1 @ rest1) = request_line_of d1"
    by (auto simp: request_line_stable)
  moreover from c2 have "request_line_of (d2 @ rest2) = request_line_of d2"
    by (auto simp: request_line_stable)
  moreover from 1 2 assms(5) have "d1 @ rest1 = d2 @ rest2" by simp
  ultimately show ?thesis by simp
qed

section \<open>The traversal check\<close>

text \<open>
  Claim C1, at a failing input. With the document root \<open>/srv/www\<close>, the paths
  \<open>/../www-secret/key\<close> and \<open>/%2e%2e/www-secret/key\<close> resolve to
  \<open>/srv/www-secret/key\<close>, which is not in the subtree of the root; the check of
  line 89 compares the two absolute paths as strings, accepts it, and the file is served
  with status 200.
\<close>

theorem traversal_check_sibling_escape:
  "build_response urllib_unquote example_world (str ''/../www-secret/key'') (str ''/srv/www'') =
     Inr (map char_of (header_text ''Wed, 04 Nov 2026 07:24:00 GMT'' 200 (str ''OK'')
            (str ''application/octet-stream'') 6) @ ''secret'')
   \<and> build_response urllib_unquote example_world (str ''/%2e%2e/www-secret/key'')
       (str ''/srv/www'') =
     Inr (map char_of (header_text ''Wed, 04 Nov 2026 07:24:00 GMT'' 200 (str ''OK'')
            (str ''application/octet-stream'') 6) @ ''secret'')
   \<and> abspath (getcwd example_world)
        (full_path_of (str ''/../www-secret/key'') (str ''/srv/www'')) =
       str ''/srv/www-secret/key''
   \<and> abspath (getcwd example_world) (str ''/srv/www'') = str ''/srv/www''
   \<and> \<not> in_subtree (str ''/srv/www'') (str ''/srv/www-secret/key'')"
proof -
  have d: "formatdate example_world = ''Wed, 04 Nov 2026 07:24:00 GMT''"
    by (simp add: example_world_def)
  have u1: "urllib_unquote (str ''/../www-secret/key'') = Inr (str ''/../www-secret/key'')"
    by (rule urllib_unquote_plain) simp
  have u2: "urllib_unquote (str ''/%2e%2e/www-secret/key'') = Inr (str ''/../www-secret/key'')"
    by (simp add: urllib_unquote_def unquote_def is_hexdig_def hexval_def utf8_step_def)
  have fp: "full_path_of (str ''/../www-secret/key'') (str ''/srv/www'') =
      str ''/srv/www/../www-secret/key''"
    by (simp add: path_eval)
  have a1: "abspath (getcwd example_world) (str ''/srv/www/../www-secret/key'') =
      str ''/srv/www-secret/key''"
    by (simp add: path_eval world_eval)
  have a2: "abspath (getcwd example_world) (str ''/srv/www'') = str ''/srv/www''"
    by (simp add: path_eval world_eval)
  have chk: "startswith (abspath (getcwd example_world) (str ''/srv/www/../www-secret/key''))
      (abspath (getcwd example_world) (str ''/srv/www''))"
    by (simp only: a1 a2) (simp add: startswith_def)
  have op: "open_rb example_world (str ''/srv/www/../www-secret/key'') = Inr ''secret''"
    by (simp add: world_eval)
  have mt: "get_mime_type (str ''/srv/www/../www-secret/key'') = str ''application/octet-stream''"
    by (simp add: mime_eval)
  have len: "length ''secret'' = 6" by simp
  have served: "serve_path example_world (str ''/srv/www'') (str ''/srv/www/../www-secret/key'') =
     Inr (map char_of (header_text ''Wed, 04 Nov 2026 07:24:00 GMT'' 200 (str ''OK'')
            (str ''application/octet-stream'') 6) @ ''secret'')"
    by (simp only: serve_path_found [OF chk op] mt len d)
  have r1: "build_response urllib_unquote example_world (str ''/../www-secret/key'')
      (str ''/srv/www'') =
     Inr (map char_of (header_text ''Wed, 04 Nov 2026 07:24:00 GMT'' 200 (str ''OK'')
            (str ''application/octet-stream'') 6) @ ''secret'')"
    by (simp only: build_response_decoded [of urllib_unquote _ _, OF u1] fp served)
  have r2: "build_response urllib_unquote example_world (str ''/%2e%2e/www-secret/key'')
      (str ''/srv/www'') =
     Inr (map char_of (header_text ''Wed, 04 Nov 2026 07:24:00 GMT'' 200 (str ''OK'')
            (str ''application/octet-stream'') 6) @ ''secret'')"
    by (simp only: build_response_decoded [of urllib_unquote _ _, OF u2] fp served)
  have out: "\<not> in_subtree (str ''/srv/www'') (str ''/srv/www-secret/key'')"
    by (simp add: in_subtree_def startswith_def endswith_def suffix_to_prefix)
  from r1 r2 a1 [folded fp] a2 out show ?thesis by blast
qed

section \<open>Failures of the file load\<close>

text \<open>
  Claim C2, at a failing input. A file that cannot be read for lack of permission makes
  \<open>open\<close> raise \<open>PermissionError\<close>, which line 104 does not catch: the exception
  leaves \<open>build_response\<close> and \<open>handle_request\<close>, nothing is written and the socket
  is not closed.
\<close>

theorem load_failure_unhandled:
  "build_response urllib_unquote example_world (str ''/private'') (str ''/srv/www'') =
     Inl PermissionError
   \<and> handle_request urllib_unquote example_world
       \<lparr>incoming = [Data (''GET /private HTTP/1.1''
                      @ [CHR 0x0D, CHR 0x0A, CHR 0x0D, CHR 0x0A])],
        send_error = None\<rparr>
       (str ''/srv/www'') =
     \<lparr>sent = [], closed = False, raised = Some PermissionError\<rparr>"
proof -
  have u: "urllib_unquote (str ''/private'') = Inr (str ''/private'')"
    by (rule urllib_unquote_plain) simp
  have fp: "full_path_of (str ''/private'') (str ''/srv/www'') = str ''/srv/www/private''"
    by (simp add: path_eval)
  have chk: "startswith (abspath (getcwd example_world) (str ''/srv/www/private''))
      (abspath (getcwd example_world) (str ''/srv/www''))"
    by (simp add: path_eval world_eval)
  have op: "open_rb example_world (str ''/srv/www/private'') = Inl PermissionError"
    by (simp add: world_eval)
  have "serve_path example_world (str ''/srv/www'') (str ''/srv/www/private'') =
      Inl PermissionError"
    using chk op by (rule serve_path_raises) simp
  then have r: "build_response urllib_unquote example_world (str ''/private'') (str ''/srv/www'') =
      Inl PermissionError"
    by (simp only: build_response_decoded [of urllib_unquote _ _, OF u] fp)
  have "handle_request urllib_unquote example_world
       \<lparr>incoming = [Data (''GET /private HTTP/1.1''
                      @ [CHR 0x0D, CHR 0x0A, CHR 0x0D, CHR 0x0A])],
        send_error = None\<rparr>
       (str ''/srv/www'') =
     (case build_response urllib_unquote example_world (str ''/private'') (str ''/srv/www'') of
        Inl e \<Rightarrow> \<lparr>sent = [], closed = False, raised = Some e\<rparr>
      | Inr response_bytes \<Rightarrow>
          (case send_error \<lparr>incoming = [Data (''GET /private HTTP/1.1''
                      @ [CHR 0x0D, CHR 0x0A, CHR 0x0D, CHR 0x0A])], send_error = None\<rparr> of
             None \<Rightarrow> \<lparr>sent = response_bytes, closed = True, raised = None\<rparr>
           | Some k \<Rightarrow> \<lparr>sent = take k response_bytes, closed = True, raised = None\<rparr>))"
    by (rule handle_request_get [where request_data = "''GET /private HTTP/1.1''
                      @ [CHR 0x0D, CHR 0x0A, CHR 0x0D, CHR 0x0A]" and http_version = "str ''HTTP/1.1''"])
      (simp_all add: request_line_of_def request_eval)
  with r show ?thesis by simp
qed

section \<open>The wire format of a response\<close>

text \<open>
  Claim C3, amended. For every status code of at most 4300 decimal digits, every status
  text and content type made of characters below U+0100, and every body,
  \<open>format_http_response\<close> returns the header block followed by the body and nothing
  else; the header block is the status line and the headers \<open>Date\<close>, \<open>Server\<close>,
  \<open>Content-Type\<close>, \<open>Content-Length\<close>, \<open>Connection: close\<close> in that order, each
  closed by CR LF, and an empty line, one byte for each character; the decimal value of
  \<open>Content-Length\<close> is the length of the body. For a status code of more than 4300
  digits the function raises \<open>ValueError\<close>; otherwise, for a status text or content
  type with a character above U+00FF, it raises \<open>UnicodeEncodeError\<close>.
\<close>

theorem format_http_response_exact:
  "(digits_of_int status_code \<le> 4300
      \<and> list_all (\<lambda>c. c < 256) status_text \<and> list_all (\<lambda>c. c < 256) content_type \<longrightarrow>
        format_http_response date status_code status_text content_type content_body =
          Inr (map char_of (header_text date status_code status_text content_type
                 (length content_body)) @ content_body)
      \<and> decode_latin1 (map char_of (header_text date status_code status_text content_type
                 (length content_body))) =
            header_text date status_code status_text content_type (length content_body)
      \<and> length (map char_of (header_text date status_code status_text content_type
                 (length content_body))) =
            length (header_text date status_code status_text content_type
                 (length content_body))
      \<and> decimal_value (str_of_nat (length content_body)) = length content_body)
   \<and> (4300 < digits_of_int status_code \<longrightarrow>
        format_http_response date status_code status_text content_type content_body =
          Inl ValueError)
   \<and> (digits_of_int status_code \<le> 4300
      \<and> \<not> (list_all (\<lambda>c. c < 256) status_text \<and> list_all (\<lambda>c. c < 256) content_type) \<longrightarrow>
        format_http_response date status_code status_text content_type content_body =
          Inl UnicodeEncodeError)"
proof (intro conjI impI)
  assume a: "digits_of_int status_code \<le> 4300
      \<and> list_all (\<lambda>c. c < 256) status_text \<and> list_all (\<lambda>c. c < 256) content_type"
  then show "format_http_response date status_code status_text content_type content_body =
          Inr (map char_of (header_text date status_code status_text content_type
                 (length content_body)) @ content_body)"
    by (simp add: format_http_response_ok)
  from a show "decode_latin1 (map char_of (header_text date status_code status_text
        content_type (length content_body))) =
      header_text date status_code status_text content_type (length content_body)"
    by (simp add: decode_encode_latin1 header_text_latin1)
next
  show "length (map char_of (header_text date status_code status_text content_type
                 (length content_body))) =
            length (header_text date status_code status_text content_type
                 (length content_body))"
    by simp
next
  show "decimal_value (str_of_nat (length content_body)) = length content_body"
    by (rule decimal_value_str_of_nat)
next
  assume "4300 < digits_of_int status_code"
  then show "format_http_response date status_code status_text content_type content_body =
      Inl ValueError"
    by (simp add: format_http_response_cases)
next
  assume "digits_of_int status_code \<le> 4300
      \<and> \<not> (list_all (\<lambda>c. c < 256) status_text \<and> list_all (\<lambda>c. c < 256) content_type)"
  then show "format_http_response date status_code status_text content_type content_body =
      Inl UnicodeEncodeError"
    by (simp add: format_http_response_cases)
qed

theorem format_http_response_exact_witness:
  "digits_of_int 200 \<le> 4300
   \<and> list_all (\<lambda>c. c < 256) (str ''OK'') \<and> list_all (\<lambda>c. c < 256) (str ''text/css'')
   \<and> format_http_response ''Wed, 04 Nov 2026 07:24:00 GMT'' 200 (str ''OK'') (str ''text/css'')
        ''p {}'' =
      Inr (''HTTP/1.1 200 OK'' @ [CHR 0x0D, CHR 0x0A]
           @ ''Date: Wed, 04 Nov 2026 07:24:00 GMT'' @ [CHR 0x0D, CHR 0x0A]
           @ ''Server: BobsDiscountServer/2.1'' @ [CHR 0x0D, CHR 0x0A]
           @ ''Content-Type: text/css'' @ [CHR 0x0D, CHR 0x0A]
           @ ''Content-Length: 4'' @ [CHR 0x0D, CHR 0x0A]
           @ ''Connection: close'' @ [CHR 0x0D, CHR 0x0A]
           @ [CHR 0x0D, CHR 0x0A] @ ''p {}'')
   \<and> 4300 < digits_of_int (10 ^ 4300)
   \<and> format_http_response ''Wed, 04 Nov 2026 07:24:00 GMT'' (10 ^ 4300) (str ''OK'')
        (str ''text/css'') ''p {}'' = Inl ValueError
   \<and> \<not> (list_all (\<lambda>c. c < 256) [8364::nat] \<and> list_all (\<lambda>c. c < 256) (str ''text/css''))
   \<and> format_http_response ''Wed, 04 Nov 2026 07:24:00 GMT'' 200 [8364] (str ''text/css'')
        ''p {}'' = Inl UnicodeEncodeError"
proof -
  have "header_text ''Wed, 04 Nov 2026 07:24:00 GMT'' 200 (str ''OK'') (str ''text/css'') 4 =
      str (''HTTP/1.1 200 OK'' @ [CHR 0x0D, CHR 0x0A]
           @ ''Date: Wed, 04 Nov 2026 07:24:00 GMT'' @ [CHR 0x0D, CHR 0x0A]
           @ ''Server: BobsDiscountServer/2.1'' @ [CHR 0x0D, CHR 0x0A]
           @ ''Content-Type: text/css'' @ [CHR 0x0D, CHR 0x0A]
           @ ''Content-Length: 4'' @ [CHR 0x0D, CHR 0x0A]
           @ ''Connection: close'' @ [CHR 0x0D, CHR 0x0A]
           @ [CHR 0x0D, CHR 0x0A])"
    by (simp add: header_text_def decimal_of_int_200 str_of_nat.simps)
  then have h: "map char_of (header_text ''Wed, 04 Nov 2026 07:24:00 GMT'' 200 (str ''OK'')
        (str ''text/css'') 4) =
      ''HTTP/1.1 200 OK'' @ [CHR 0x0D, CHR 0x0A]
           @ ''Date: Wed, 04 Nov 2026 07:24:00 GMT'' @ [CHR 0x0D, CHR 0x0A]
           @ ''Server: BobsDiscountServer/2.1'' @ [CHR 0x0D, CHR 0x0A]
           @ ''Content-Type: text/css'' @ [CHR 0x0D, CHR 0x0A]
           @ ''Content-Length: 4'' @ [CHR 0x0D, CHR 0x0A]
           @ ''Connection: close'' @ [CHR 0x0D, CHR 0x0A]
           @ [CHR 0x0D, CHR 0x0A]"
    by (simp only: char_of_str)
  have len: "length ''p {}'' = 4" by simp
  have d: "digits_of_int 200 \<le> 4300" by (rule digits_of_status_codes)
  have a: "list_all (\<lambda>c. c < 256) (str ''OK'')" and b: "list_all (\<lambda>c. c < 256) (str ''text/css'')"
    by simp_all
  from d a b
    format_http_response_exact [of 200 "str ''OK''" "str ''text/css''"
      "''Wed, 04 Nov 2026 07:24:00 GMT''" "''p {}''"]
  have "format_http_response ''Wed, 04 Nov 2026 07:24:00 GMT'' 200 (str ''OK'') (str ''text/css'')
        ''p {}'' =
      Inr (map char_of (header_text ''Wed, 04 Nov 2026 07:24:00 GMT'' 200 (str ''OK'')
        (str ''text/css'') (length ''p {}'')) @ ''p {}'')"
    by blast
  then have 1: "format_http_response ''Wed, 04 Nov 2026 07:24:00 GMT'' 200 (str ''OK'')
        (str ''text/css'') ''p {}'' =
      Inr (''HTTP/1.1 200 OK'' @ [CHR 0x0D, CHR 0x0A]
           @ ''Date: Wed, 04 Nov 2026 07:24:00 GMT'' @ [CHR 0x0D, CHR 0x0A]
           @ ''Server: BobsDiscountServer/2.1'' @ [CHR 0x0D, CHR 0x0A]
           @ ''Content-Type: text/css'' @ [CHR 0x0D, CHR 0x0A]
           @ ''Content-Length: 4'' @ [CHR 0x0D, CHR 0x0A]
           @ ''Connection: close'' @ [CHR 0x0D, CHR 0x0A]
           @ [CHR 0x0D, CHR 0x0A] @ ''p {}'')"
    by (simp only: len h append_assoc)
  have big: "4300 < digits_of_int (10 ^ 4300)" by (rule digits_limit_exceeded)
  from big
    format_http_response_exact [of "10 ^ 4300" "str ''OK''" "str ''text/css''"
      "''Wed, 04 Nov 2026 07:24:00 GMT''" "''p {}''"]
  have 2: "format_http_response ''Wed, 04 Nov 2026 07:24:00 GMT'' (10 ^ 4300) (str ''OK'')
        (str ''text/css'') ''p {}'' = Inl ValueError"
    by blast
  have e: "\<not> (list_all (\<lambda>c. c < 256) [8364::nat] \<and> list_all (\<lambda>c. c < 256) (str ''text/css''))"
    by simp
  from d e
    format_http_response_exact [of 200 "[8364]" "str ''text/css''"
      "''Wed, 04 Nov 2026 07:24:00 GMT''" "''p {}''"]
  have 3: "format_http_response ''Wed, 04 Nov 2026 07:24:00 GMT'' 200 [8364] (str ''text/css'')
        ''p {}'' = Inl UnicodeEncodeError"
    by blast
  from d a b 1 big 2 e 3 show ?thesis by (intro conjI)
qed

text \<open>
  Claim C3 as stated, for every status code and every status text: a status code of
  4301 digits makes the conversion of line 43 raise, a status text with a character
  beyond U+00FF makes the \<open>latin-1\<close> encoding of line 58 raise, and no response is
  produced.
\<close>

theorem format_http_response_counterexample:
  "format_http_response ''Wed, 04 Nov 2026 07:24:00 GMT'' (10 ^ 4300) (str ''OK'')
     (str ''text/html'') ''hi'' = Inl ValueError
   \<and> format_http_response ''Wed, 04 Nov 2026 07:24:00 GMT'' 200 [8364] (str ''text/html'')
     ''hi'' = Inl UnicodeEncodeError"
proof
  from digits_limit_exceeded
  show "format_http_response ''Wed, 04 Nov 2026 07:24:00 GMT'' (10 ^ 4300) (str ''OK'')
     (str ''text/html'') ''hi'' = Inl ValueError"
    by (simp only: format_http_response_cases if_True)
next
  have "\<not> 4300 < digits_of_int 200"
    using digits_of_status_codes(1) by simp
  then show "format_http_response ''Wed, 04 Nov 2026 07:24:00 GMT'' 200 [8364]
     (str ''text/html'') ''hi'' = Inl UnicodeEncodeError"
    by (simp add: format_http_response_cases)
qed

section \<open>Requests that get no response\<close>

text \<open>
  Claim C4, amended. For every received buffer whose first line does not split into
  exactly three tokens at white space, or whose first token is not \<open>GET\<close>, the
  handler closes the connection and writes nothing; in particular a buffer whose first
  line has one token, with or without a CR LF terminated header section.
\<close>

theorem malformed_request_closed:
  assumes "recv_loop (incoming c) [] = Inr request_data"
    and "length (split_ws (request_line_of request_data)) \<noteq> 3
         \<or> hd (split_ws (request_line_of request_data)) \<noteq> str ''GET''"
  shows "handle_request unq w c doc_root = \<lparr>sent = [], closed = True, raised = None\<rparr>"
  using handle_request_malformed [OF assms] by (simp only: closed_silently_def)

theorem malformed_request_closed_witness:
  "recv_loop (incoming \<lparr>incoming = [Data (''garbage'' @ [CHR 0x0D, CHR 0x0A, CHR 0x0D, CHR 0x0A])],
                      send_error = None\<rparr>) [] =
     Inr (''garbage'' @ [CHR 0x0D, CHR 0x0A, CHR 0x0D, CHR 0x0A])
   \<and> length (split_ws (request_line_of
        (''garbage'' @ [CHR 0x0D, CHR 0x0A, CHR 0x0D, CHR 0x0A]))) \<noteq> 3
   \<and> handle_request urllib_unquote example_world
       \<lparr>incoming = [Data (''garbage'' @ [CHR 0x0D, CHR 0x0A, CHR 0x0D, CHR 0x0A])],
        send_error = None\<rparr> (str ''/srv/www'') =
     \<lparr>sent = [], closed = True, raised = None\<rparr>
   \<and> recv_loop (incoming \<lparr>incoming = [Data (''POST / HTTP/1.1''
                      @ [CHR 0x0D, CHR 0x0A, CHR 0x0D, CHR 0x0A])], send_error = None\<rparr>) [] =
     Inr (''POST / HTTP/1.1'' @ [CHR 0x0D, CHR 0x0A, CHR 0x0D, CHR 0x0A])
   \<and> hd (split_ws (request_line_of
        (''POST / HTTP/1.1'' @ [CHR 0x0D, CHR 0x0A, CHR 0x0D, CHR 0x0A]))) \<noteq> str ''GET''
   \<and> handle_request urllib_unquote example_world
       \<lparr>incoming = [Data (''POST / HTTP/1.1'' @ [CHR 0x0D, CHR 0x0A, CHR 0x0D, CHR 0x0A])],
        send_error = None\<rparr> (str ''/srv/www'') =
     \<lparr>sent = [], closed = True, raised = None\<rparr>
   \<and> recv_loop (incoming \<lparr>incoming = [Data ''garbage''], send_error = None\<rparr>) [] =
     Inr ''garbage''
   \<and> \<not> contains [CHR 0x0D, CHR 0x0A] ''garbage''
   \<and> length (split_ws (request_line_of ''garbage'')) \<noteq> 3
   \<and> handle_request urllib_unquote example_world
       \<lparr>incoming = [Data ''garbage''], send_error = None\<rparr> (str ''/srv/www'') =
     \<lparr>sent = [], closed = True, raised = None\<rparr>"
proof -
  have 1: "recv_loop (incoming \<lparr>incoming = [Data (''garbage''
        @ [CHR 0x0D, CHR 0x0A, CHR 0x0D, CHR 0x0A])], send_error = None\<rparr>) [] =
     Inr (''garbage'' @ [CHR 0x0D, CHR 0x0A, CHR 0x0D, CHR 0x0A])"
    by simp
  have 2: "length (split_ws (request_line_of
        (''garbage'' @ [CHR 0x0D, CHR 0x0A, CHR 0x0D, CHR 0x0A]))) \<noteq> 3"
    by (simp add: request_line_of_def request_eval)
  have 3: "recv_loop (incoming \<lparr>incoming = [Data (''POST / HTTP/1.1''
        @ [CHR 0x0D, CHR 0x0A, CHR 0x0D, CHR 0x0A])], send_error = None\<rparr>) [] =
     Inr (''POST / HTTP/1.1'' @ [CHR 0x0D, CHR 0x0A, CHR 0x0D, CHR 0x0A])"
    by simp
  have 4: "hd (split_ws (request_line_of
        (''POST / HTTP/1.1'' @ [CHR 0x0D, CHR 0x0A, CHR 0x0D, CHR 0x0A]))) \<noteq> str ''GET''"
    by (simp add: request_line_of_def request_eval)
  have 5: "recv_loop (incoming \<lparr>incoming = [Data ''garbage''], send_error = None\<rparr>) [] =
     Inr ''garbage''"
    by simp
  have 6: "length (split_ws (request_line_of ''garbage'')) \<noteq> 3"
    by (simp add: request_line_of_def request_eval)
  have 7: "\<not> contains [CHR 0x0D, CHR 0x0A] ''garbage''" by simp
  from 1 2 malformed_request_closed [OF 1 disjI1, OF 2]
    3 4 malformed_request_closed [OF 3 disjI2, OF 4]
    5 6 7 malformed_request_closed [OF 5 disjI1, OF 6]
  show ?thesis by blast
qed

text \<open>
  Claim C4 as stated, for a request without a CR LF terminated header section: the
  bytes \<open>GET / HTTP/1.1\<close> followed by the end of the stream hold no CR LF, and the
  handler answers them with the index page.
\<close>

theorem unterminated_request_answered:
  "\<not> contains [CHR 0x0D, CHR 0x0A] ''GET / HTTP/1.1''
   \<and> handle_request urllib_unquote example_world
       \<lparr>incoming = [Data ''GET / HTTP/1.1''], send_error = None\<rparr> (str ''/srv/www'') =
     \<lparr>sent = map char_of (header_text ''Wed, 04 Nov 2026 07:24:00 GMT'' 200 (str ''OK'')
               (str ''text/html'') 12) @ ''<p>hello</p>'',
      closed = True, raised = None\<rparr>"
proof -
  have d: "formatdate example_world = ''Wed, 04 Nov 2026 07:24:00 GMT''"
    by (simp add: example_world_def)
  have u: "urllib_unquote (str ''/'') = Inr (str ''/'')"
    by (rule urllib_unquote_plain) simp
  have fp: "full_path_of (str ''/'') (str ''/srv/www'') = str ''/srv/www/index.html''"
    by (simp add: path_eval)
  have chk: "startswith (abspath (getcwd example_world) (str ''/srv/www/index.html''))
      (abspath (getcwd example_world) (str ''/srv/www''))"
    by (simp add: path_eval world_eval)
  have op: "open_rb example_world (str ''/srv/www/index.html'') = Inr ''<p>hello</p>''"
    by (simp add: world_eval)
  have mt: "get_mime_type (str ''/srv/www/index.html'') = str ''text/html''"
    by (simp add: mime_eval)
  have len: "length ''<p>hello</p>'' = 12" by simp
  have r: "build_response urllib_unquote example_world (str ''/'') (str ''/srv/www'') =
     Inr (map char_of (header_text ''Wed, 04 Nov 2026 07:24:00 GMT'' 200 (str ''OK'')
            (str ''text/html'') 12) @ ''<p>hello</p>'')"
    by (simp only: build_response_decoded [of urllib_unquote _ _, OF u] fp
        serve_path_found [OF chk op] mt len d)
  have "handle_request urllib_unquote example_world
       \<lparr>incoming = [Data ''GET / HTTP/1.1''], send_error = None\<rparr> (str ''/srv/www'') =
     (case build_response urllib_unquote example_world (str ''/'') (str ''/srv/www'') of
        Inl e \<Rightarrow> \<lparr>sent = [], closed = False, raised = Some e\<rparr>
      | Inr response_bytes \<Rightarrow>
          (case send_error \<lparr>incoming = [Data ''GET / HTTP/1.1''], send_error = None\<rparr> of
             None \<Rightarrow> \<lparr>sent = response_bytes, closed = True, raised = None\<rparr>
           | Some k \<Rightarrow> \<lparr>sent = take k response_bytes, closed = True, raised = None\<rparr>))"
    by (rule handle_request_get [where request_data = "''GET / HTTP/1.1''"
          and http_version = "str ''HTTP/1.1''"])
      (simp_all add: request_line_of_def request_eval)
  with r have "handle_request urllib_unquote example_world
       \<lparr>incoming = [Data ''GET / HTTP/1.1''], send_error = None\<rparr> (str ''/srv/www'') =
     \<lparr>sent = map char_of (header_text ''Wed, 04 Nov 2026 07:24:00 GMT'' 200 (str ''OK'')
               (str ''text/html'') 12) @ ''<p>hello</p>'',
      closed = True, raised = None\<rparr>"
    by simp
  moreover have "\<not> contains [CHR 0x0D, CHR 0x0A] ''GET / HTTP/1.1''" by simp
  ultimately show ?thesis by blast
qed

section \<open>The default document\<close>

text \<open>
  Claim C5. For every raw URI path whose decoded form ends with \<open>/\<close>, the file
  served is the one at the document root joined with the decoded path, \<open>index.html\<close>
  appended and the leading slashes stripped; a request for \<open>/\<close> resolves to
  \<open>index.html\<close> under the root and one for \<open>/sub/\<close> to \<open>sub/index.html\<close>
  under the root.
\<close>

theorem default_document:
  "(\<forall>p. unq uri_path = Inr p \<and> endswith p (str ''/'') \<longrightarrow>
      build_response unq w uri_path doc_root =
        serve_path w doc_root (join doc_root (lstrip 47 (p @ str ''index.html''))))
   \<and> build_response urllib_unquote w (str ''/'') doc_root =
        serve_path w doc_root (join doc_root (str ''index.html''))
   \<and> build_response urllib_unquote w (str ''/sub/'') doc_root =
        serve_path w doc_root (join doc_root (str ''sub/index.html''))
   \<and> (doc_root \<noteq> [] \<and> \<not> endswith doc_root (str ''/'') \<longrightarrow>
        join doc_root (str ''sub/index.html'') = doc_root @ str ''/sub/index.html'')"
proof (intro conjI allI impI)
  fix p assume "unq uri_path = Inr p \<and> endswith p (str ''/'')"
  then show "build_response unq w uri_path doc_root =
        serve_path w doc_root (join doc_root (lstrip 47 (p @ str ''index.html'')))"
    by (simp add: build_response_def full_path_of_def)
next
  have "urllib_unquote (str ''/'') = Inr (str ''/'')"
    by (rule urllib_unquote_plain) simp
  then show "build_response urllib_unquote w (str ''/'') doc_root =
        serve_path w doc_root (join doc_root (str ''index.html''))"
    by (simp add: build_response_def full_path_of_def endswith_def suffix_to_prefix lstrip_def)
next
  have "urllib_unquote (str ''/sub/'') = Inr (str ''/sub/'')"
    by (rule urllib_unquote_plain) simp
  then show "build_response urllib_unquote w (str ''/sub/'') doc_root =
        serve_path w doc_root (join doc_root (str ''sub/index.html''))"
    by (simp add: build_response_def full_path_of_def endswith_def suffix_to_prefix lstrip_def)
next
  assume "doc_root \<noteq> [] \<and> \<not> endswith doc_root (str ''/'')"
  then show "join doc_root (str ''sub/index.html'') = doc_root @ str ''/sub/index.html''"
    by (simp add: join_def startswith_def)
qed

theorem default_document_witness:
  "urllib_unquote (str ''/'') = Inr (str ''/'') \<and> endswith (str ''/'') (str ''/'')
   \<and> str ''/srv/www'' \<noteq> [] \<and> \<not> endswith (str ''/srv/www'') (str ''/'')
   \<and> build_response urllib_unquote example_world (str ''/'') (str ''/srv/www'') =
       Inr (map char_of (header_text ''Wed, 04 Nov 2026 07:24:00 GMT'' 200 (str ''OK'')
              (str ''text/html'') 12) @ ''<p>hello</p>'')
   \<and> join (str ''/srv/www'') (str ''sub/index.html'') = str ''/srv/www/sub/index.html''"
proof -
  have d: "formatdate example_world = ''Wed, 04 Nov 2026 07:24:00 GMT''"
    by (simp add: example_world_def)
  have 1: "urllib_unquote (str ''/'') = Inr (str ''/'')"
    by (rule urllib_unquote_plain) simp
  have 2: "endswith (str ''/'') (str ''/'')"
    by (simp add: endswith_def)
  have 3: "str ''/srv/www'' \<noteq> [] \<and> \<not> endswith (str ''/srv/www'') (str ''/'')"
    by (simp add: endswith_def suffix_to_prefix)
  have fp: "join (str ''/srv/www'') (lstrip 47 (str ''/'' @ str ''index.html'')) =
      str ''/srv/www/index.html''"
    by (simp add: path_eval)
  have 4: "startswith (abspath (getcwd example_world) (str ''/srv/www/index.html''))
      (abspath (getcwd example_world) (str ''/srv/www''))"
    by (simp add: path_eval world_eval)
  have 5: "open_rb example_world (str ''/srv/www/index.html'') = Inr ''<p>hello</p>''"
    by (simp add: world_eval)
  have 6: "get_mime_type (str ''/srv/www/index.html'') = str ''text/html''"
    by (simp add: mime_eval)
  have 7: "length ''<p>hello</p>'' = 12" by simp
  from default_document [of urllib_unquote "str ''/''" example_world "str ''/srv/www''"] 1 2
  have "build_response urllib_unquote example_world (str ''/'') (str ''/srv/www'') =
      serve_path example_world (str ''/srv/www'')
        (join (str ''/srv/www'') (lstrip 47 (str ''/'' @ str ''index.html'')))"
    by blast
  then have a: "build_response urllib_unquote example_world (str ''/'') (str ''/srv/www'') =
       Inr (map char_of (header_text ''Wed, 04 Nov 2026 07:24:00 GMT'' 200 (str ''OK'')
              (str ''text/html'') 12) @ ''<p>hello</p>'')"
    by (simp only: fp serve_path_found [OF 4 5] 6 7 d)
  from default_document [of urllib_unquote "str ''/''" example_world "str ''/srv/www''"] 3
  have b: "join (str ''/srv/www'') (str ''sub/index.html'') = str ''/srv/www'' @ str ''/sub/index.html''"
    by blast
  have c: "str ''/srv/www'' @ str ''/sub/index.html'' = str ''/srv/www/sub/index.html''" by simp
  from 1 2 3 a b [unfolded c] show ?thesis by blast
qed

section \<open>The MIME resolver\<close>

text \<open>
  Claim C6. For every file path, \<open>get_mime_type\<close> returns the content type that the
  specification's MIME resolver describes: the type of the extension after the last
  \<open>.\<close> of the final segment, letters compared without regard to case, and
  \<open>application/octet-stream\<close> when the final segment has no \<open>.\<close> or the
  extension is not in the table.
\<close>

theorem get_mime_type_refines_spec: "get_mime_type p = spec_mime_resolver p"
proof (cases "46 \<in> set p")
  case False
  then have "46 \<notin> set (final_segment p)"
    using set_after_last [of 47 p] by (auto simp: final_segment_def)
  with False show ?thesis
    by (simp add: get_mime_type_def spec_mime_resolver_def DEFAULT_MIME_TYPE_def)
next
  case dot: True
  have code: "get_mime_type p = dict_get MIME_TYPES (lower (after_last 46 p)) DEFAULT_MIME_TYPE"
    using dot by (simp add: get_mime_type_def last_py_split_char)
  show ?thesis
  proof (cases "46 \<in> set (final_segment p)")
    case True
    obtain a where "p = a @ final_segment p"
      using after_last_suffix [of p 47] unfolding final_segment_def by blast
    with True have "after_last 46 p = after_last 46 (final_segment p)"
      by (rule ext_in_segment)
    with True code show ?thesis
      by (simp add: spec_mime_resolver_def mime_lookup_lower)
  next
    case False
    have slash: "47 \<in> set p"
    proof (rule ccontr)
      assume "47 \<notin> set p"
      then have "final_segment p = p" by (simp add: final_segment_def after_last_absent)
      with dot False show False by simp
    qed
    then obtain a where "p = a @ 47 # final_segment p"
      using after_last_decompose [of 47 p] unfolding final_segment_def by blast
    with False have "47 \<in> set (after_last 46 p)" by (rule ext_has_slash)
    then have "dict_get MIME_TYPES (lower (after_last 46 p)) DEFAULT_MIME_TYPE = DEFAULT_MIME_TYPE"
      by (rule mime_lookup_slash)
    with False code show ?thesis
      by (simp add: spec_mime_resolver_def DEFAULT_MIME_TYPE_def)
  qed
qed

section \<open>Statuses of the responses\<close>

text \<open>
  Claim C7. For every URI path and document root, a response built by
  \<open>build_response\<close> has the status line \<open>HTTP/1.1 200 OK\<close>,
  \<open>HTTP/1.1 400 Bad Request\<close> or \<open>HTTP/1.1 404 Not Found\<close>: no other status is
  emitted.
\<close>

theorem build_response_statuses:
  assumes "build_response unq w uri_path doc_root = Inr r"
  shows "status_line r \<in> {str ''HTTP/1.1 200 OK'', str ''HTTP/1.1 400 Bad Request'',
                           str ''HTTP/1.1 404 Not Found''}"
proof (cases "unq uri_path")
  case (Inl e)
  with assms have "format_http_response (formatdate w) 400 (str ''Bad Request'')
      (str ''text/html'') ''<h1>400 Bad Request</h1>'' = Inr r"
    by (simp add: build_response_def)
  then have "status_line r = str ''HTTP/1.1 400 Bad Request''" by (rule status_line_400)
  then show ?thesis by simp
next
  case (Inr decoded)
  with assms have "serve_path w doc_root (full_path_of decoded doc_root) = Inr r"
    by (simp add: build_response_def)
  then have "status_line r = str ''HTTP/1.1 200 OK'' \<or> status_line r = str ''HTTP/1.1 404 Not Found''"
    by (rule serve_path_status)
  then show ?thesis by auto
qed

theorem build_response_statuses_witness:
  "build_response urllib_unquote example_world (str ''/missing.txt'') (str ''/srv/www'') =
     Inr (map char_of (header_text ''Wed, 04 Nov 2026 07:24:00 GMT'' 404 (str ''Not Found'')
            (str ''text/html'') 22) @ ''<h1>404 Not Found</h1>'')
   \<and> status_line (map char_of (header_text ''Wed, 04 Nov 2026 07:24:00 GMT'' 404
            (str ''Not Found'') (str ''text/html'') 22) @ ''<h1>404 Not Found</h1>'')
       \<in> {str ''HTTP/1.1 200 OK'', str ''HTTP/1.1 400 Bad Request'',
           str ''HTTP/1.1 404 Not Found''}"
proof -
  have "build_response urllib_unquote example_world (str ''/missing.txt'') (str ''/srv/www'') =
     format_http_response ''Wed, 04 Nov 2026 07:24:00 GMT'' 404 (str ''Not Found'')
       (str ''text/html'') ''<h1>404 Not Found</h1>''"
    by (simp add: build_response_def urllib_unquote_plain serve_path_def path_eval world_eval)
  then have e: "build_response urllib_unquote example_world (str ''/missing.txt'')
      (str ''/srv/www'') =
     Inr (map char_of (header_text ''Wed, 04 Nov 2026 07:24:00 GMT'' 404 (str ''Not Found'')
            (str ''text/html'') 22) @ ''<h1>404 Not Found</h1>'')"
    by (simp only: not_found_response)
  from e build_response_statuses [OF e] show ?thesis by (rule conjI)
qed

section \<open>Decoding failures\<close>

text \<open>
  Claim C8, at a failing input. The request path \<open>/%zz\<close> carries a malformed
  percent escape. \<open>urllib.parse.unquote\<close> does not raise on it: it returns the path
  unchanged, so the handler of line 72 is not entered and no 400 response is built.
  \<open>build_response\<close> goes on to the path resolution, looks for a file named \<open>%zz\<close>
  under the document root and answers 404 Not Found.
\<close>

theorem malformed_escape_not_rejected:
  "urllib_unquote (str ''/%zz'') = Inr (str ''/%zz'')
   \<and> full_path_of (str ''/%zz'') (str ''/srv/www'') = str ''/srv/www/%zz''
   \<and> build_response urllib_unquote example_world (str ''/%zz'') (str ''/srv/www'') =
       Inr (map char_of (header_text ''Wed, 04 Nov 2026 07:24:00 GMT'' 404 (str ''Not Found'')
              (str ''text/html'') 22) @ ''<h1>404 Not Found</h1>'')
   \<and> status_line (map char_of (header_text ''Wed, 04 Nov 2026 07:24:00 GMT'' 404
              (str ''Not Found'') (str ''text/html'') 22) @ ''<h1>404 Not Found</h1>'') =
       str ''HTTP/1.1 404 Not Found''
   \<and> build_response urllib_unquote example_world (str ''/%zz'') (str ''/srv/www'') \<noteq>
       Inr (map char_of (header_text ''Wed, 04 Nov 2026 07:24:00 GMT'' 400 (str ''Bad Request'')
              (str ''text/html'') 24) @ ''<h1>400 Bad Request</h1>'')"
proof -
  have u: "urllib_unquote (str ''/%zz'') = Inr (str ''/%zz'')"
    by (rule malformed_escape_kept)
  have fp: "full_path_of (str ''/%zz'') (str ''/srv/www'') = str ''/srv/www/%zz''"
    by (simp add: path_eval)
  have d: "formatdate example_world = ''Wed, 04 Nov 2026 07:24:00 GMT''"
    by (simp add: example_world_def)
  have chk: "startswith (abspath (getcwd example_world) (str ''/srv/www/%zz''))
      (abspath (getcwd example_world) (str ''/srv/www''))"
    by (simp add: path_eval world_eval)
  have op: "open_rb example_world (str ''/srv/www/%zz'') = Inl FileNotFoundError"
    by (simp add: world_eval)
  have "serve_path example_world (str ''/srv/www'') (str ''/srv/www/%zz'') =
      Inr (map char_of (header_text (formatdate example_world) 404 (str ''Not Found'')
             (str ''text/html'') 22) @ ''<h1>404 Not Found</h1>'')"
    using chk op by (rule serve_path_missing)
  then have r: "build_response urllib_unquote example_world (str ''/%zz'') (str ''/srv/www'') =
      Inr (map char_of (header_text ''Wed, 04 Nov 2026 07:24:00 GMT'' 404 (str ''Not Found'')
             (str ''text/html'') 22) @ ''<h1>404 Not Found</h1>'')"
    by (simp only: build_response_decoded [of urllib_unquote _ _, OF u] fp d)
  have "format_http_response ''Wed, 04 Nov 2026 07:24:00 GMT'' 404 (str ''Not Found'')
      (str ''text/html'') ''<h1>404 Not Found</h1>'' =
     Inr (map char_of (header_text ''Wed, 04 Nov 2026 07:24:00 GMT'' 404 (str ''Not Found'')
            (str ''text/html'') 22) @ ''<h1>404 Not Found</h1>'')"
    by (rule not_found_response)
  then have s: "status_line (map char_of (header_text ''Wed, 04 Nov 2026 07:24:00 GMT'' 404
              (str ''Not Found'') (str ''text/html'') 22) @ ''<h1>404 Not Found</h1>'') =
       str ''HTTP/1.1 404 Not Found''"
    by (rule status_line_404)
  have "map char_of (header_text ''Wed, 04 Nov 2026 07:24:00 GMT'' 404 (str ''Not Found'')
          (str ''text/html'') 22) @ ''<h1>404 Not Found</h1>'' \<noteq>
        map char_of (header_text ''Wed, 04 Nov 2026 07:24:00 GMT'' 400 (str ''Bad Request'')
          (str ''text/html'') 24) @ ''<h1>400 Bad Request</h1>''"
    by (rule bad_request_body_differs)
  with r have n: "build_response urllib_unquote example_world (str ''/%zz'') (str ''/srv/www'') \<noteq>
       Inr (map char_of (header_text ''Wed, 04 Nov 2026 07:24:00 GMT'' 400 (str ''Bad Request'')
              (str ''text/html'') 24) @ ''<h1>400 Bad Request</h1>'')"
    by (simp only: sum.inject not_False_eq_True)
  from u fp r s n show ?thesis by (intro conjI)
qed

section \<open>Determinism of the response\<close>

text \<open>
  Claim C9. For two connections whose received buffers have the same request line,
  handled against the same document root, working directory and file system, the
  outcomes agree: either nothing is written on both, or the two responses are the same
  bytes before and after the value of the \<open>Date\<close> header. The bytes after the first
  line have no influence.
\<close>

theorem response_determined_by_request_line:
  assumes "recv_loop (incoming c1) [] = Inr d1" and "recv_loop (incoming c2) [] = Inr d2"
    and "request_line_of d1 = request_line_of d2"
    and "send_error c1 = None" and "send_error c2 = None"
    and "getcwd w1 = getcwd w2" and "open_rb w1 = open_rb w2"
  shows "closed (handle_request unq w1 c1 doc_root) = closed (handle_request unq w2 c2 doc_root)
       \<and> raised (handle_request unq w1 c1 doc_root) = raised (handle_request unq w2 c2 doc_root)
       \<and> (sent (handle_request unq w1 c1 doc_root) = []
            \<and> sent (handle_request unq w2 c2 doc_root) = []
          \<or> (\<exists>pre post.
                sent (handle_request unq w1 c1 doc_root) =
                  pre @ ''Date: '' @ formatdate w1 @ [CHR 0x0D, CHR 0x0A] @ post
              \<and> sent (handle_request unq w2 c2 doc_root) =
                  pre @ ''Date: '' @ formatdate w2 @ [CHR 0x0D, CHR 0x0A] @ post))"
proof (cases "length (split_ws (request_line_of d1)) \<noteq> 3
         \<or> hd (split_ws (request_line_of d1)) \<noteq> str ''GET''")
  case True
  then have "length (split_ws (request_line_of d2)) \<noteq> 3
         \<or> hd (split_ws (request_line_of d2)) \<noteq> str ''GET''"
    unfolding assms(3) .
  with assms(2) have "handle_request unq w2 c2 doc_root = closed_silently"
    by (rule handle_request_malformed)
  moreover from assms(1) True have "handle_request unq w1 c1 doc_root = closed_silently"
    by (rule handle_request_malformed)
  ultimately show ?thesis by (simp add: closed_silently_def)
next
  case False
  then have l: "length (split_ws (request_line_of d1)) = 3"
    and h: "hd (split_ws (request_line_of d1)) = str ''GET''" by simp_all
  from three_tokens [OF l h] obtain uri_path http_version
    where t1: "split_ws (request_line_of d1) = [str ''GET'', uri_path, http_version]"
    by (elim exE)
  then have t2: "split_ws (request_line_of d2) = [str ''GET'', uri_path, http_version]"
    unfolding assms(3) .
  have n1: "d1 \<noteq> []" using t1 request_line_of_empty by auto
  have n2: "d2 \<noteq> []" using t2 request_line_of_empty by auto
  have h1: "handle_request unq w1 c1 doc_root =
     (case build_response unq w1 uri_path doc_root of
        Inl e \<Rightarrow> \<lparr>sent = [], closed = False, raised = Some e\<rparr>
      | Inr response_bytes \<Rightarrow> \<lparr>sent = response_bytes, closed = True, raised = None\<rparr>)"
    using handle_request_get [OF assms(1) n1 t1, of unq w1 doc_root]
    unfolding assms(4) option.case .
  have h2: "handle_request unq w2 c2 doc_root =
     (case build_response unq w2 uri_path doc_root of
        Inl e \<Rightarrow> \<lparr>sent = [], closed = False, raised = Some e\<rparr>
      | Inr response_bytes \<Rightarrow> \<lparr>sent = response_bytes, closed = True, raised = None\<rparr>)"
    using handle_request_get [OF assms(2) n2 t2, of unq w2 doc_root]
    unfolding assms(5) option.case .
  from build_response_clock [OF assms(6,7), of unq uri_path doc_root]
  show ?thesis
  proof (elim disjE exE conjE)
    fix e
    assume "build_response unq w1 uri_path doc_root = Inl e"
      and "build_response unq w2 uri_path doc_root = Inl e"
    with h1 h2 show ?thesis by simp
  next
    fix pre post
    assume "build_response unq w1 uri_path doc_root =
               Inr (pre @ ''Date: '' @ formatdate w1 @ [CHR 0x0D, CHR 0x0A] @ post)"
      and "build_response unq w2 uri_path doc_root =
               Inr (pre @ ''Date: '' @ formatdate w2 @ [CHR 0x0D, CHR 0x0A] @ post)"
    with h1 h2 have "sent (handle_request unq w1 c1 doc_root) =
                  pre @ ''Date: '' @ formatdate w1 @ [CHR 0x0D, CHR 0x0A] @ post
              \<and> sent (handle_request unq w2 c2 doc_root) =
                  pre @ ''Date: '' @ formatdate w2 @ [CHR 0x0D, CHR 0x0A] @ post
              \<and> closed (handle_request unq w1 c1 doc_root)
                  = closed (handle_request unq w2 c2 doc_root)
              \<and> raised (handle_request unq w1 c1 doc_root)
                  = raised (handle_request unq w2 c2 doc_root)"
      by simp
    then show ?thesis by blast
  qed
qed

theorem response_determined_by_request_line_witness:
  "recv_loop (incoming example_connection1) [] =
     Inr (''GET / HTTP/1.1'' @ [CHR 0x0D, CHR 0x0A] @ ''Host: a''
          @ [CHR 0x0D, CHR 0x0A, CHR 0x0D, CHR 0x0A])
   \<and> recv_loop (incoming example_connection2) [] =
     Inr (''GET / HTTP/1.1'' @ [CHR 0x0D, CHR 0x0A, CHR 0x0D, CHR 0x0A])
   \<and> request_line_of (''GET / HTTP/1.1'' @ [CHR 0x0D, CHR 0x0A] @ ''Host: a''
          @ [CHR 0x0D, CHR 0x0A, CHR 0x0D, CHR 0x0A]) =
       request_line_of (''GET / HTTP/1.1'' @ [CHR 0x0D, CHR 0x0A, CHR 0x0D, CHR 0x0A])
   \<and> send_error example_connection1 = None \<and> send_error example_connection2 = None
   \<and> getcwd example_world = getcwd example_world_later
   \<and> open_rb example_world = open_rb example_world_later
   \<and> closed (handle_request urllib_unquote example_world example_connection1 (str ''/srv/www''))
       = closed (handle_request urllib_unquote example_world_later example_connection2
           (str ''/srv/www''))
   \<and> raised (handle_request urllib_unquote example_world example_connection1 (str ''/srv/www''))
       = raised (handle_request urllib_unquote example_world_later example_connection2
           (str ''/srv/www''))
   \<and> (sent (handle_request urllib_unquote example_world example_connection1
              (str ''/srv/www'')) = []
        \<and> sent (handle_request urllib_unquote example_world_later example_connection2
              (str ''/srv/www'')) = []
      \<or> (\<exists>pre post.
            sent (handle_request urllib_unquote example_world example_connection1
              (str ''/srv/www'')) =
              pre @ ''Date: '' @ formatdate example_world @ [CHR 0x0D, CHR 0x0A] @ post
          \<and> sent (handle_request urllib_unquote example_world_later example_connection2
              (str ''/srv/www'')) =
              pre @ ''Date: '' @ formatdate example_world_later @ [CHR 0x0D, CHR 0x0A] @ post))
   \<and> sent (handle_request urllib_unquote example_world example_connection1 (str ''/srv/www'')) =
       map char_of (header_text ''Wed, 04 Nov 2026 07:24:00 GMT'' 200 (str ''OK'')
         (str ''text/html'') 12) @ ''<p>hello</p>''
   \<and> sent (handle_request urllib_unquote example_world_later example_connection2
         (str ''/srv/www'')) =
       map char_of (header_text ''Thu, 05 Nov 2026 08:00:00 GMT'' 200 (str ''OK'')
         (str ''text/html'') 12) @ ''<p>hello</p>''"
proof -
  have 1: "recv_loop (incoming example_connection1) [] =
     Inr (''GET / HTTP/1.1'' @ [CHR 0x0D, CHR 0x0A] @ ''Host: a''
          @ [CHR 0x0D, CHR 0x0A, CHR 0x0D, CHR 0x0A])"
    by (simp add: example_connection1_def)
  have 2: "recv_loop (incoming example_connection2) [] =
     Inr (''GET / HTTP/1.1'' @ [CHR 0x0D, CHR 0x0A, CHR 0x0D, CHR 0x0A])"
    by (simp add: example_connection2_def)
  have 3: "request_line_of (''GET / HTTP/1.1'' @ [CHR 0x0D, CHR 0x0A] @ ''Host: a''
          @ [CHR 0x0D, CHR 0x0A, CHR 0x0D, CHR 0x0A]) =
       request_line_of (''GET / HTTP/1.1'' @ [CHR 0x0D, CHR 0x0A, CHR 0x0D, CHR 0x0A])"
    by (simp add: request_line_of_def decode_latin1_def py_split.simps(2))
  have 4: "send_error example_connection1 = None"
    by (simp add: example_connection1_def)
  have 5: "send_error example_connection2 = None"
    by (simp add: example_connection2_def)
  have 6: "getcwd example_world = getcwd example_world_later"
    by (simp add: example_world_later_def)
  have 7: "open_rb example_world = open_rb example_world_later"
    by (simp add: example_world_later_def)
  have 8: "sent (handle_request urllib_unquote example_world example_connection1
        (str ''/srv/www'')) =
       map char_of (header_text ''Wed, 04 Nov 2026 07:24:00 GMT'' 200 (str ''OK'')
         (str ''text/html'') 12) @ ''<p>hello</p>''"
    by (simp only: example_connection1_answered outcome.simps)
  have 9: "sent (handle_request urllib_unquote example_world_later example_connection2
         (str ''/srv/www'')) =
       map char_of (header_text ''Thu, 05 Nov 2026 08:00:00 GMT'' 200 (str ''OK'')
         (str ''text/html'') 12) @ ''<p>hello</p>''"
    by (simp only: example_connection2_answered outcome.simps)
  from 1 2 3 4 5 6 7 8 9
    response_determined_by_request_line [OF 1 2 3 4 5 6 7, of urllib_unquote "str ''/srv/www''"]
  show ?thesis by (elim conjE) (intro conjI; assumption)
qed

section \<open>The two 404 responses\<close>

text \<open>
  Claim C10. A request whose path the containment check rejects gets the 404 response
  with the body \<open><h1>404 Not Found (Security Violation)</h1>\<close>, a request for a
  missing file the 404 response with the body \<open><h1>404 Not Found</h1>\<close>; the two
  responses are never the same bytes, whatever the two requests and the clock.
\<close>

theorem not_found_bodies_differ:
  assumes "unq uri1 = Inr p1"
    and "\<not> startswith (abspath (getcwd w1) (full_path_of p1 root1)) (abspath (getcwd w1) root1)"
    and "unq uri2 = Inr p2"
    and "startswith (abspath (getcwd w2) (full_path_of p2 root2)) (abspath (getcwd w2) root2)"
    and "open_rb w2 (full_path_of p2 root2) = Inl FileNotFoundError"
  shows "build_response unq w1 uri1 root1 =
           Inr (map char_of (header_text (formatdate w1) 404 (str ''Not Found'')
                  (str ''text/html'') 43) @ ''<h1>404 Not Found (Security Violation)</h1>'')
       \<and> build_response unq w2 uri2 root2 =
           Inr (map char_of (header_text (formatdate w2) 404 (str ''Not Found'')
                  (str ''text/html'') 22) @ ''<h1>404 Not Found</h1>'')
       \<and> build_response unq w1 uri1 root1 \<noteq> build_response unq w2 uri2 root2"
proof -
  have 1: "build_response unq w1 uri1 root1 =
           Inr (map char_of (header_text (formatdate w1) 404 (str ''Not Found'')
                  (str ''text/html'') 43) @ ''<h1>404 Not Found (Security Violation)</h1>'')"
    by (simp only: build_response_decoded [of unq uri1 p1, OF assms(1)] serve_path_rejected [OF assms(2)])
  have 2: "build_response unq w2 uri2 root2 =
           Inr (map char_of (header_text (formatdate w2) 404 (str ''Not Found'')
                  (str ''text/html'') 22) @ ''<h1>404 Not Found</h1>'')"
    by (simp only: build_response_decoded [of unq uri2 p2, OF assms(3)] serve_path_missing [OF assms(4,5)])
  have "build_response unq w1 uri1 root1 \<noteq> build_response unq w2 uri2 root2"
    by (simp only: 1 2 sum.inject error_bodies_differ not_False_eq_True)
  with 1 2 show ?thesis by blast
qed

theorem not_found_bodies_differ_witness:
  "build_response urllib_unquote example_world (str ''/../../etc/passwd'') (str ''/srv/www'') =
     Inr (map char_of (header_text ''Wed, 04 Nov 2026 07:24:00 GMT'' 404 (str ''Not Found'')
            (str ''text/html'') 43) @ ''<h1>404 Not Found (Security Violation)</h1>'')
   \<and> build_response urllib_unquote example_world (str ''/missing.txt'') (str ''/srv/www'') =
     Inr (map char_of (header_text ''Wed, 04 Nov 2026 07:24:00 GMT'' 404 (str ''Not Found'')
            (str ''text/html'') 22) @ ''<h1>404 Not Found</h1>'')
   \<and> build_response urllib_unquote example_world (str ''/../../etc/passwd'') (str ''/srv/www'')
       \<noteq> build_response urllib_unquote example_world (str ''/missing.txt'') (str ''/srv/www'')"
proof -
  have d: "formatdate example_world = ''Wed, 04 Nov 2026 07:24:00 GMT''"
    by (simp add: example_world_def)
  have 1: "urllib_unquote (str ''/../../etc/passwd'') = Inr (str ''/../../etc/passwd'')"
    by (rule urllib_unquote_plain) simp
  have 2: "\<not> startswith
      (abspath (getcwd example_world) (full_path_of (str ''/../../etc/passwd'') (str ''/srv/www'')))
      (abspath (getcwd example_world) (str ''/srv/www''))"
    by (simp add: path_eval world_eval)
  have 3: "urllib_unquote (str ''/missing.txt'') = Inr (str ''/missing.txt'')"
    by (rule urllib_unquote_plain) simp
  have 4: "startswith
      (abspath (getcwd example_world) (full_path_of (str ''/missing.txt'') (str ''/srv/www'')))
      (abspath (getcwd example_world) (str ''/srv/www''))"
    by (simp add: path_eval world_eval)
  have 5: "open_rb example_world (full_path_of (str ''/missing.txt'') (str ''/srv/www'')) =
      Inl FileNotFoundError"
    by (simp add: path_eval world_eval)
  from not_found_bodies_differ [OF 1 2 3 4 5, unfolded d] show ?thesis .
qed

end
